theory Spec2Isabelle
  imports Main "HOL-Library.List_Lexorder"
begin

section \<open>Python strings and the built-ins the scripts call\<close>

text \<open>
  A Python \<^verbatim>\<open>str\<close> is a sequence of Unicode code points, so it is modelled as a list of
  natural numbers. Slicing, \<^verbatim>\<open>len\<close> and indexing then count code points as Python does
  (the bullet U+2022 is the single element 8226). ASCII literals are written through \<open>u\<close>.
\<close>

type_synonym str = "nat list"

definition u :: "string \<Rightarrow> str" where
  "u s = map of_char s"

text \<open>
  \<^verbatim>\<open>str.strip()\<close> without argument removes the characters for which \<^verbatim>\<open>str.isspace\<close>
  holds: U+0009..U+000D, U+001C..U+0020, U+0085, U+00A0, U+1680, U+2000..U+200A, U+2028,
  U+2029, U+202F, U+205F, U+3000.
\<close>

definition isspace :: "nat \<Rightarrow> bool" where
  "isspace c =
     ((9 \<le> c \<and> c \<le> 13) \<or> (28 \<le> c \<and> c \<le> 32) \<or> c = 133 \<or> c = 160 \<or> c = 5760 \<or>
      (8192 \<le> c \<and> c \<le> 8202) \<or> c = 8232 \<or> c = 8233 \<or> c = 8239 \<or> c = 8287 \<or> c = 12288)"

text \<open>
  \<^verbatim>\<open>str.isdigit\<close> on one character: the code points with Unicode property
  Numeric_Type Digit or Decimal (the table of Unicode 14, as shipped with CPython 3.11),
  given as inclusive ranges. The ASCII part is \<open>0..9\<close> in every version.
\<close>

definition digit_ranges :: "(nat \<times> nat) list" where
  "digit_ranges =
    [(48, 57), (178, 179), (185, 185), (1632, 1641), (1776, 1785), (1984, 1993), (2406, 2415),
     (2534, 2543), (2662, 2671), (2790, 2799), (2918, 2927), (3046, 3055), (3174, 3183),
     (3302, 3311), (3430, 3439), (3558, 3567), (3664, 3673), (3792, 3801), (3872, 3881),
     (4160, 4169), (4240, 4249), (4969, 4977), (6112, 6121), (6160, 6169), (6470, 6479),
     (6608, 6618), (6784, 6793), (6800, 6809), (6992, 7001), (7088, 7097), (7232, 7241),
     (7248, 7257), (8304, 8304), (8308, 8313), (8320, 8329), (9312, 9320), (9332, 9340),
     (9352, 9360), (9450, 9450), (9461, 9469), (9471, 9471), (10102, 10110), (10112, 10120),
     (10122, 10130), (42528, 42537), (43216, 43225), (43264, 43273), (43472, 43481),
     (43504, 43513), (43600, 43609), (44016, 44025), (65296, 65305), (66720, 66729),
     (68160, 68163), (68912, 68921), (69216, 69224), (69714, 69722), (69734, 69743),
     (69872, 69881), (69942, 69951), (70096, 70105), (70384, 70393), (70736, 70745),
     (70864, 70873), (71248, 71257), (71360, 71369), (71472, 71481), (71904, 71913),
     (72016, 72025), (72784, 72793), (73040, 73049), (73120, 73129), (92768, 92777),
     (92864, 92873), (93008, 93017), (120782, 120831), (123200, 123209), (123632, 123641),
     (125264, 125273), (127232, 127242), (130032, 130041)]"

definition isdigit :: "nat \<Rightarrow> bool" where
  "isdigit c = list_ex (\<lambda>(lo, hi). lo \<le> c \<and> c \<le> hi) digit_ranges"

definition strip :: "str \<Rightarrow> str" where
  "strip s = rev (dropWhile isspace (rev (dropWhile isspace s)))"

text \<open>\<^verbatim>\<open>s.startswith(p)\<close>, and \<^verbatim>\<open>s.startswith((p1, ..., pn))\<close> with a tuple of prefixes.\<close>

definition startswith :: "str \<Rightarrow> str \<Rightarrow> bool" where
  "startswith s p = (take (length p) s = p)"

definition startswith_any :: "str \<Rightarrow> str list \<Rightarrow> bool" where
  "startswith_any s ps = list_ex (startswith s) ps"

text \<open>
  \<^verbatim>\<open>s.split(sep)\<close> for a one-character separator: every occurrence cuts, and the empty
  string gives one empty piece.
\<close>

fun split_sep :: "nat \<Rightarrow> str \<Rightarrow> str list" where
  "split_sep sep [] = [[]]"
| "split_sep sep (c # cs) =
     (if c = sep then [] # split_sep sep cs
      else (case split_sep sep cs of
              [] \<Rightarrow> [[c]]
            | piece # pieces \<Rightarrow> (c # piece) # pieces))"

text \<open>\<^verbatim>\<open>s.split(sep, 1)\<close>: at most one cut, at the first occurrence of the separator.\<close>

definition split_once :: "nat \<Rightarrow> str \<Rightarrow> str list" where
  "split_once sep s =
     (case dropWhile (\<lambda>c. c \<noteq> sep) s of
        [] \<Rightarrow> [s]
      | _ # rest \<Rightarrow> [takeWhile (\<lambda>c. c \<noteq> sep) s, rest])"

text \<open>\<^verbatim>\<open>cleaned and cleaned[0].isdigit()\<close>: the index is only read on a non-empty string.\<close>

definition first_isdigit :: "str \<Rightarrow> bool" where
  "first_isdigit s = (case s of [] \<Rightarrow> False | c # _ \<Rightarrow> isdigit c)"

section \<open>Exceptions\<close>

text \<open>
  What a call can raise. \<open>Exception\<close> stands for any other instance of class
  \<^verbatim>\<open>Exception\<close>. \<^verbatim>\<open>KeyboardInterrupt\<close>, \<^verbatim>\<open>SystemExit\<close> and
  \<^verbatim>\<open>asyncio.CancelledError\<close> derive from \<^verbatim>\<open>BaseException\<close> only, so a handler
  \<^verbatim>\<open>except Exception\<close> does not catch them.
\<close>

datatype py_exception =
    IndexError | ValueError | TypeError | ImportError | OverflowError | OSError | EOFError
  | Exception
  | KeyboardInterrupt | SystemExit | CancelledError

fun is_Exception :: "py_exception \<Rightarrow> bool" where
  "is_Exception KeyboardInterrupt = False"
| "is_Exception SystemExit = False"
| "is_Exception CancelledError = False"
| "is_Exception _ = True"

text \<open>\<^verbatim>\<open>xs[1]\<close> raises \<^verbatim>\<open>IndexError\<close> on a list shorter than two.\<close>

definition item1 :: "'a list \<Rightarrow> py_exception + 'a" where
  "item1 xs = (case xs of _ # x # _ \<Rightarrow> Inr x | _ \<Rightarrow> Inl IndexError)"

text \<open>
  \<^verbatim>\<open>try: body  except Exception as e: print(...); return None\<close> around a body that
  returns a value or \<^verbatim>\<open>None\<close>.
\<close>

definition except_Exception_return_None ::
  "py_exception + 'a option \<Rightarrow> py_exception + 'a option" where
  "except_Exception_return_None body =
     (case body of
        Inl e \<Rightarrow> (if is_Exception e then Inr None else Inl e)
      | Inr v \<Rightarrow> Inr v)"

section \<open>The response normalisation, one copy per client\<close>

text \<open>
  The loop \<^verbatim>\<open>while len(utterances) < 10: utterances.append(placeholder)\<close> occurs in the
  three clients with the same shape; only the appended string differs.
\<close>

function while_len_lt_10_append :: "str list \<Rightarrow> str \<Rightarrow> str list" where
  "while_len_lt_10_append utterances placeholder =
     (if length utterances < 10
      then while_len_lt_10_append (utterances @ [placeholder]) placeholder
      else utterances)"
  by pat_completeness auto
termination
  by (relation "measure (\<lambda>(utterances, placeholder). 10 - length utterances)") auto

subsection \<open>\<^verbatim>\<open>generate_utterances\<close> (main.py, lines 231 to 249)\<close>

text \<open>The body of the \<^verbatim>\<open>for line in response_text.split('\n')\<close> loop, lines 235 to 241.\<close>

definition loop_body_adk :: "str \<Rightarrow> str list \<Rightarrow> py_exception + str list" where
  "loop_body_adk line utterances =
     (let cleaned = strip line in
      if cleaned \<noteq> [] \<and> \<not> startswith_any cleaned [u ''-'', [8226], u ''*'', u ''1.'', u ''2.'']
      then
        (case (if cleaned \<noteq> [] \<and> first_isdigit cleaned \<and> 46 \<in> set (take 5 cleaned)
               then (case item1 (split_once 46 cleaned) of
                       Inl e \<Rightarrow> Inl e
                     | Inr rest \<Rightarrow> Inr (strip rest))
               else Inr cleaned) of
           Inl e \<Rightarrow> Inl e
         | Inr cleaned' \<Rightarrow>
             Inr (if cleaned' \<noteq> [] then utterances @ [cleaned'] else utterances))
      else Inr utterances)"

fun for_lines_adk :: "str list \<Rightarrow> str list \<Rightarrow> py_exception + str list" where
  "for_lines_adk [] utterances = Inr utterances"
| "for_lines_adk (line # lines) utterances =
     (case loop_body_adk line utterances of
        Inl e \<Rightarrow> Inl e
      | Inr utterances' \<Rightarrow> for_lines_adk lines utterances')"

text \<open>Lines 232 to 247: parse, pad, truncate.\<close>

definition normalize_adk :: "str \<Rightarrow> str \<Rightarrow> py_exception + str list" where
  "normalize_adk response_text intention =
     (case for_lines_adk (split_sep 10 response_text) [] of
        Inl e \<Rightarrow> Inl e
      | Inr utterances \<Rightarrow>
          Inr (take 10 (while_len_lt_10_append utterances
                          (u ''Alternative expression: '' @ intention))))"

text \<open>Lines 231 to 249: the guard \<^verbatim>\<open>if response_text.strip():\<close> and \<^verbatim>\<open>return None\<close>.\<close>

definition parse_response_adk :: "str \<Rightarrow> str \<Rightarrow> py_exception + str list option" where
  "parse_response_adk response_text intention =
     (if strip response_text \<noteq> []
      then (case normalize_adk response_text intention of
              Inl e \<Rightarrow> Inl e
            | Inr utterances \<Rightarrow> Inr (Some utterances))
      else Inr None)"

subsection \<open>\<^verbatim>\<open>generate_utterances_direct_api\<close> (main.py, lines 145 to 163)\<close>

definition loop_body_direct :: "str \<Rightarrow> str list \<Rightarrow> py_exception + str list" where
  "loop_body_direct line utterances =
     (let cleaned = strip line in
      if cleaned \<noteq> [] \<and> \<not> startswith_any cleaned [u ''-'', [8226], u ''*'', u ''1.'', u ''2.'']
      then
        (case (if cleaned \<noteq> [] \<and> first_isdigit cleaned \<and> 46 \<in> set (take 5 cleaned)
               then (case item1 (split_once 46 cleaned) of
                       Inl e \<Rightarrow> Inl e
                     | Inr rest \<Rightarrow> Inr (strip rest))
               else Inr cleaned) of
           Inl e \<Rightarrow> Inl e
         | Inr cleaned' \<Rightarrow>
             Inr (if cleaned' \<noteq> [] then utterances @ [cleaned'] else utterances))
      else Inr utterances)"

fun for_lines_direct :: "str list \<Rightarrow> str list \<Rightarrow> py_exception + str list" where
  "for_lines_direct [] utterances = Inr utterances"
| "for_lines_direct (line # lines) utterances =
     (case loop_body_direct line utterances of
        Inl e \<Rightarrow> Inl e
      | Inr utterances' \<Rightarrow> for_lines_direct lines utterances')"

definition normalize_direct :: "str \<Rightarrow> str \<Rightarrow> py_exception + str list" where
  "normalize_direct text intention =
     (case for_lines_direct (split_sep 10 text) [] of
        Inl e \<Rightarrow> Inl e
      | Inr utterances \<Rightarrow>
          Inr (take 10 (while_len_lt_10_append utterances
                          (u ''Alternative expression: '' @ intention))))"

text \<open>
  The guard here is the truth value of \<^verbatim>\<open>response.text\<close> itself: a string of blanks
  passes it.
\<close>

definition parse_response_direct :: "str \<Rightarrow> str \<Rightarrow> py_exception + str list option" where
  "parse_response_direct text intention =
     (if text \<noteq> []
      then (case normalize_direct text intention of
              Inl e \<Rightarrow> Inl e
            | Inr utterances \<Rightarrow> Inr (Some utterances))
      else Inr None)"

subsection \<open>\<^verbatim>\<open>generate_utterances_simple\<close> (main_simple.py, lines 55 to 73)\<close>

text \<open>
  This copy has three bullet markers only, asks for \<^verbatim>\<open>len(cleaned) > 2\<close> before it strips
  a number, and pads with another sentence.
\<close>

definition loop_body_simple :: "str \<Rightarrow> str list \<Rightarrow> py_exception + str list" where
  "loop_body_simple line utterances =
     (let cleaned = strip line in
      if cleaned \<noteq> [] \<and> \<not> startswith_any cleaned [u ''-'', [8226], u ''*'']
      then
        (case (if cleaned \<noteq> [] \<and> length cleaned > 2 \<and> first_isdigit cleaned
                  \<and> 46 \<in> set (take 5 cleaned)
               then (case item1 (split_once 46 cleaned) of
                       Inl e \<Rightarrow> Inl e
                     | Inr rest \<Rightarrow> Inr (strip rest))
               else Inr cleaned) of
           Inl e \<Rightarrow> Inl e
         | Inr cleaned' \<Rightarrow>
             Inr (if cleaned' \<noteq> [] then utterances @ [cleaned'] else utterances))
      else Inr utterances)"

fun for_lines_simple :: "str list \<Rightarrow> str list \<Rightarrow> py_exception + str list" where
  "for_lines_simple [] utterances = Inr utterances"
| "for_lines_simple (line # lines) utterances =
     (case loop_body_simple line utterances of
        Inl e \<Rightarrow> Inl e
      | Inr utterances' \<Rightarrow> for_lines_simple lines utterances')"

definition normalize_simple :: "str \<Rightarrow> str \<Rightarrow> py_exception + str list" where
  "normalize_simple text intention =
     (case for_lines_simple (split_sep 10 text) [] of
        Inl e \<Rightarrow> Inl e
      | Inr utterances \<Rightarrow>
          Inr (take 10 (while_len_lt_10_append utterances
                          (u ''Alternative way to say: '' @ intention))))"

definition parse_response_simple :: "str \<Rightarrow> str \<Rightarrow> py_exception + str list option" where
  "parse_response_simple text intention =
     (if text \<noteq> []
      then (case normalize_simple text intention of
              Inl e \<Rightarrow> Inl e
            | Inr utterances \<Rightarrow> Inr (Some utterances))
      else Inr None)"

subsection \<open>The parsed entries as a function of the lines\<close>

text \<open>
  What one line contributes to \<open>utterances\<close>, written without the accumulator: \<open>None\<close>
  for a discarded line. The three loops are shown below to compute exactly these entries,
  in the order of the lines. The copies in main.py share \<open>entry_main\<close>.
\<close>

definition numbered_prefix_removed :: "str \<Rightarrow> str" where
  "numbered_prefix_removed s = strip (drop 1 (dropWhile (\<lambda>c. c \<noteq> 46) s))"

definition entry_main :: "str \<Rightarrow> str option" where
  "entry_main line =
     (let cleaned = strip line in
      if cleaned = [] \<or> startswith_any cleaned [u ''-'', [8226], u ''*'', u ''1.'', u ''2.'']
      then None
      else (let cleaned' = (if first_isdigit cleaned \<and> 46 \<in> set (take 5 cleaned)
                            then numbered_prefix_removed cleaned else cleaned)
            in if cleaned' = [] then None else Some cleaned'))"

definition entry_simple :: "str \<Rightarrow> str option" where
  "entry_simple line =
     (let cleaned = strip line in
      if cleaned = [] \<or> startswith_any cleaned [u ''-'', [8226], u ''*'']
      then None
      else (let cleaned' = (if length cleaned > 2 \<and> first_isdigit cleaned
                                 \<and> 46 \<in> set (take 5 cleaned)
                            then numbered_prefix_removed cleaned else cleaned)
            in if cleaned' = [] then None else Some cleaned'))"

definition parsed_entries_main :: "str \<Rightarrow> str list" where
  "parsed_entries_main raw = List.map_filter entry_main (split_sep 10 raw)"

definition parsed_entries_simple :: "str \<Rightarrow> str list" where
  "parsed_entries_simple raw = List.map_filter entry_simple (split_sep 10 raw)"

text \<open>Padding up to ten and cutting at ten, in closed form.\<close>

definition pad10 :: "str list \<Rightarrow> str \<Rightarrow> str list" where
  "pad10 es p = take 10 (es @ replicate (10 - length es) p)"

text \<open>
  A well-formed line in the words of the specification: non-empty after trimming, not a
  bullet line, and non-empty after the numbered prefix (if the line has one) is stripped.
\<close>

definition well_formed_line :: "str \<Rightarrow> bool" where
  "well_formed_line line =
     (let t = strip line in
      t \<noteq> [] \<and> \<not> startswith_any t [u ''-'', [8226], u ''*''] \<and>
      (if first_isdigit t \<and> 46 \<in> set (take 5 t) then numbered_prefix_removed t else t) \<noteq> [])"

section \<open>The generation clients\<close>

subsection \<open>The prompts\<close>

definition prompt_adk :: "str \<Rightarrow> str" where
  "prompt_adk intention =
     u ''Generate 10 diverse utterances for this intention: '' @ [34] @ intention @ [34, 10] @
     u ''        '' @ [10] @
     u ''Make each utterance unique and natural. Vary the:'' @ [10] @
     u ''- Sentence structure and length'' @ [10] @
     u ''- Level of formality'' @ [10] @
     u ''- Perspective (first person, questions, statements)'' @ [10] @
     u ''- Specific words and phrasing'' @ [10, 10] @
     u ''Return exactly 10 utterances, one per line, without numbers or bullet points.''"

definition prompt_direct :: "str \<Rightarrow> str" where
  "prompt_direct intention =
     u ''Generate 10 diverse utterances for this intention: '' @ [34] @ intention @ [34, 10, 10] @
     u ''Make each utterance unique and natural. Vary the:'' @ [10] @
     u ''- Sentence structure and length'' @ [10] @
     u ''- Level of formality'' @ [10] @
     u ''- Perspective (first person, questions, statements)'' @ [10] @
     u ''- Specific words and phrasing'' @ [10, 10] @
     u ''Return exactly 10 utterances, one per line, without numbers or bullet points.''"


subsection \<open>The session-based client \<^verbatim>\<open>generate_utterances\<close>\<close>

text \<open>
  An attribute as the loop of lines 215 to 228 tests it: \<^verbatim>\<open>hasattr\<close> is false, or the
  attribute is there and holds \<^verbatim>\<open>None\<close>, or it holds a value.
\<close>

datatype 'a attribute = Missing | Holds_None | Holds 'a

text \<open>
  The events of \<^verbatim>\<open>runner.run_async\<close> as far as that loop looks at them. The parts of
  a content are a list or \<^verbatim>\<open>None\<close>.
\<close>

datatype part = Part (part_text: "str attribute")

datatype content = Content (parts: "part list option")

datatype candidate = Candidate (content: "content attribute")

datatype adk_response = Adk_response (candidates: "candidate list attribute")

datatype event = Event (response: "adk_response attribute") (event_text: "str attribute")

text \<open>
  \<^verbatim>\<open>if hasattr(x, 'text'): response_text += x.text\<close>. Only \<^verbatim>\<open>hasattr\<close> is tested, so
  a text that is \<^verbatim>\<open>None\<close> reaches \<^verbatim>\<open>+=\<close>, which raises \<^verbatim>\<open>TypeError\<close>.
\<close>

definition append_text :: "str attribute \<Rightarrow> str \<Rightarrow> py_exception + str" where
  "append_text a response_text =
     (case a of
        Missing \<Rightarrow> Inr response_text
      | Holds_None \<Rightarrow> Inl TypeError
      | Holds t \<Rightarrow> Inr (response_text @ t))"

text \<open>Lines 224 to 226.\<close>

fun for_parts :: "part list \<Rightarrow> str \<Rightarrow> py_exception + str" where
  "for_parts [] response_text = Inr response_text"
| "for_parts (p # ps) response_text =
     (case append_text (part_text p) response_text of
        Inl e \<Rightarrow> Inl e
      | Inr response_text' \<Rightarrow> for_parts ps response_text')"

text \<open>
  Lines 223 to 226: a content that is missing or \<^verbatim>\<open>None\<close> is passed over; iterating
  over parts that are \<^verbatim>\<open>None\<close> raises \<^verbatim>\<open>TypeError\<close>.
\<close>

definition add_candidate :: "candidate \<Rightarrow> str \<Rightarrow> py_exception + str" where
  "add_candidate c response_text =
     (case content c of
        Holds (Content (Some ps)) \<Rightarrow> for_parts ps response_text
      | Holds (Content None) \<Rightarrow> Inl TypeError
      | _ \<Rightarrow> Inr response_text)"

fun for_candidates :: "candidate list \<Rightarrow> str \<Rightarrow> py_exception + str" where
  "for_candidates [] response_text = Inr response_text"
| "for_candidates (c # cs) response_text =
     (case add_candidate c response_text of
        Inl e \<Rightarrow> Inl e
      | Inr response_text' \<Rightarrow> for_candidates cs response_text')"

text \<open>
  Lines 220 to 228. The \<^verbatim>\<open>elif\<close> is taken when the event has no response (or a false
  one); an event with a response but without candidates adds nothing.
\<close>

definition add_event :: "event \<Rightarrow> str \<Rightarrow> py_exception + str" where
  "add_event ev response_text =
     (case response ev of
        Holds r \<Rightarrow>
          (case candidates r of
             Holds cs \<Rightarrow> for_candidates cs response_text
           | _ \<Rightarrow> Inr response_text)
      | _ \<Rightarrow> append_text (event_text ev) response_text)"

fun for_events :: "event list \<Rightarrow> str \<Rightarrow> py_exception + str" where
  "for_events [] response_text = Inr response_text"
| "for_events (ev # evs) response_text =
     (case add_event ev response_text of
        Inl e \<Rightarrow> Inl e
      | Inr response_text' \<Rightarrow> for_events evs response_text')"

text \<open>
  The world the client runs in: whether building the runner or creating the session
  raises, and, for the prompt sent, the events delivered and the exception (if any) that
  ends the stream after them.
\<close>

record adk_env =
  create_session :: "py_exception option"
  run_async :: "str \<Rightarrow> event list \<times> py_exception option"

text \<open>
  Lines 172 to 255. The agent argument only names the runner and is left out. The whole
  body is inside \<^verbatim>\<open>try\<close>, with the handler \<^verbatim>\<open>except Exception\<close>. The events are
  handled as they arrive, so an exception of the loop body comes before the one that
  ends the stream.
\<close>

definition generate_utterances :: "adk_env \<Rightarrow> str \<Rightarrow> py_exception + str list option" where
  "generate_utterances env intention =
     except_Exception_return_None
       (case create_session env of
          Some e \<Rightarrow> Inl e
        | None \<Rightarrow>
            (case run_async env (prompt_adk intention) of
               (events, stream_end) \<Rightarrow>
                 (case for_events events [] of
                    Inl e \<Rightarrow> Inl e
                  | Inr response_text \<Rightarrow>
                      (case stream_end of
                         Some e \<Rightarrow> Inl e
                       | None \<Rightarrow> parse_response_adk response_text intention))))"

subsection \<open>The stateless clients\<close>

text \<open>
  \<^verbatim>\<open>model.generate_content(prompt)\<close> raises or returns a response object (or a false
  value, \<open>None\<close>); reading \<^verbatim>\<open>response.text\<close> raises or gives a string.
\<close>

datatype genai_response = Response (response_text: "py_exception + str")

record genai_env =
  import_genai :: "py_exception option"
  GOOGLE_API_KEY :: "str option"
  generate_content :: "str \<Rightarrow> py_exception + genai_response option"

text \<open>\<^verbatim>\<open>not api_key\<close>: the variable is unset or empty.\<close>

definition not_str :: "str option \<Rightarrow> bool" where
  "not_str v = (case v of None \<Rightarrow> True | Some s \<Rightarrow> s = [])"

text \<open>main.py, lines 123 to 167.\<close>

definition generate_utterances_direct_api ::
  "genai_env \<Rightarrow> str \<Rightarrow> py_exception + str list option" where
  "generate_utterances_direct_api env intention =
     except_Exception_return_None
       (case import_genai env of
          Some e \<Rightarrow> Inl e
        | None \<Rightarrow>
            if not_str (GOOGLE_API_KEY env) then Inl ValueError
            else (case generate_content env (prompt_direct intention) of
                    Inl e \<Rightarrow> Inl e
                  | Inr None \<Rightarrow> Inr None
                  | Inr (Some r) \<Rightarrow>
                      (case response_text r of
                         Inl e \<Rightarrow> Inl e
                       | Inr t \<Rightarrow> parse_response_direct t intention)))"


section \<open>The orchestrating flow of main.py\<close>

text \<open>
  What a run does, in order: the calls to the clients and to \<^verbatim>\<open>save_to_csv\<close>, and the
  messages printed.
\<close>

datatype message =
    ADK_method_failed_trying_direct_API
  | Failed_to_generate_utterances
  | Generated_utterances_for str
  | Dashes
  | Numbered_utterance nat str
  | Operation_cancelled_by_user
  | Unexpected_error

datatype action =
    Call_generate_utterances str
  | Call_generate_utterances_direct_api str
  | Call_save_to_csv "str list" str
  | Print message

text \<open>\<^verbatim>\<open>not utterances\<close>: the value is \<^verbatim>\<open>None\<close> or an empty list.\<close>

definition not_list :: "'a list option \<Rightarrow> bool" where
  "not_list v = (case v of None \<Rightarrow> True | Some xs \<Rightarrow> xs = [])"

record main_env =
  adk :: adk_env
  genai :: genai_env

text \<open>Lines 343 to 350, reached with a true value in \<^verbatim>\<open>utterances\<close>.\<close>

definition display_and_save :: "str list \<Rightarrow> str \<Rightarrow> action list" where
  "display_and_save utterances intention =
     [Print (Generated_utterances_for intention), Print Dashes] @
     map (\<lambda>(i, utterance). Print (Numbered_utterance i utterance))
         (zip [1 ..< Suc (length utterances)] utterances) @
     [Call_save_to_csv utterances intention]"

text \<open>
  Lines 332 to 350, entered with the intention of line 319 (non-empty) and an agent: the
  actions performed, and the exception that leaves the block, if any.
\<close>

definition main_generate :: "main_env \<Rightarrow> str \<Rightarrow> action list \<times> py_exception option" where
  "main_generate env intention =
     (case generate_utterances (adk env) intention of
        Inl e \<Rightarrow> ([Call_generate_utterances intention], Some e)
      | Inr utterances \<Rightarrow>
          if not_list utterances
          then (case generate_utterances_direct_api (genai env) intention of
                  Inl e \<Rightarrow>
                    ([Call_generate_utterances intention,
                      Print ADK_method_failed_trying_direct_API,
                      Call_generate_utterances_direct_api intention], Some e)
                | Inr utterances' \<Rightarrow>
                    if not_list utterances'
                    then ([Call_generate_utterances intention,
                           Print ADK_method_failed_trying_direct_API,
                           Call_generate_utterances_direct_api intention,
                           Print Failed_to_generate_utterances], None)
                    else ([Call_generate_utterances intention,
                           Print ADK_method_failed_trying_direct_API,
                           Call_generate_utterances_direct_api intention] @
                          display_and_save (case utterances' of Some us \<Rightarrow> us | None \<Rightarrow> [])
                            intention, None))
          else ([Call_generate_utterances intention] @
                display_and_save (case utterances of Some us \<Rightarrow> us | None \<Rightarrow> []) intention,
                None))"

text \<open>
  The handlers of lines 352 to 355 around it: \<^verbatim>\<open>KeyboardInterrupt\<close> and every
  \<^verbatim>\<open>Exception\<close> end the run with a message; anything else leaves \<^verbatim>\<open>main\<close>.
\<close>

definition main_orchestrate :: "main_env \<Rightarrow> str \<Rightarrow> action list \<times> py_exception option" where
  "main_orchestrate env intention =
     (case main_generate env intention of
        (actions, None) \<Rightarrow> (actions, None)
      | (actions, Some e) \<Rightarrow>
          if e = KeyboardInterrupt then (actions @ [Print Operation_cancelled_by_user], None)
          else if is_Exception e then (actions @ [Print Unexpected_error], None)
          else (actions, Some e))"

section \<open>Persistence: \<^verbatim>\<open>save_to_csv\<close>\<close>

text \<open>
  A reading of \<^verbatim>\<open>datetime.now()\<close>, and the two formats the function asks for.
  \<^verbatim>\<open>%m %d %H %M %S\<close> print two digits; \<^verbatim>\<open>%Y\<close> prints the year, four digits for
  every year from 1000 on.
\<close>

record datetime =
  year :: nat
  month :: nat
  day :: nat
  hour :: nat
  minute :: nat
  second :: nat
  microsecond :: nat

definition valid_datetime :: "datetime \<Rightarrow> bool" where
  "valid_datetime d =
     (1000 \<le> year d \<and> year d \<le> 9999 \<and> 1 \<le> month d \<and> month d \<le> 12 \<and>
      1 \<le> day d \<and> day d \<le> 31 \<and> hour d < 24 \<and> minute d < 60 \<and> second d < 60 \<and>
      microsecond d < 1000000)"

definition digits2 :: "nat \<Rightarrow> str" where
  "digits2 n = [48 + n div 10 mod 10, 48 + n mod 10]"

definition digits4 :: "nat \<Rightarrow> str" where
  "digits4 n = [48 + n div 1000 mod 10, 48 + n div 100 mod 10, 48 + n div 10 mod 10, 48 + n mod 10]"

definition strftime_Ymd :: "datetime \<Rightarrow> str" where
  "strftime_Ymd d = digits4 (year d) @ digits2 (month d) @ digits2 (day d)"

definition strftime_Ymd_HMS :: "datetime \<Rightarrow> str" where
  "strftime_Ymd_HMS d =
     strftime_Ymd d @ u ''_'' @ digits2 (hour d) @ digits2 (minute d) @ digits2 (second d)"

text \<open>
  The files the function can see, by path relative to the working directory: the
  directories, and the content of each regular file. A CSV file is kept as its header and
  its data rows. Writing can fail (a full disk, a text that cannot be encoded):
  \<open>write_error\<close> gives, for a path, what a failing write leaves in the file, and \<open>None\<close>
  where writing succeeds.
\<close>

type_synonym csv_row = "nat \<times> str \<times> str"

type_synonym csv_file = "str list \<times> csv_row list"

record filesystem =
  directories :: "str set"
  files :: "str \<rightharpoonup> csv_file"
  write_error :: "str \<Rightarrow> csv_file option"

definition path_exists :: "filesystem \<Rightarrow> str \<Rightarrow> bool" where
  "path_exists fs p = (p \<in> directories fs \<or> files fs p \<noteq> None)"

definition makedirs :: "filesystem \<Rightarrow> str \<Rightarrow> filesystem" where
  "makedirs fs p = fs\<lparr>directories := insert p (directories fs)\<rparr>"

text \<open>
  main.py, lines 260 to 297, and the same body in main_simple.py, lines 82 to 119.
  \<^verbatim>\<open>datetime.now()\<close> is read twice, for the file name and for the directory name.
  \<^verbatim>\<open>open(filepath, 'w')\<close> creates the file or truncates the one that is there; it
  raises when the directory is not one or the path names a directory, and the handler
  then returns \<^verbatim>\<open>None\<close>. An exception while the rows are written is caught by the
  same handler: the function returns \<^verbatim>\<open>None\<close> and the file stays as the write left it.
\<close>

definition save_to_csv ::
  "filesystem \<Rightarrow> datetime \<Rightarrow> datetime \<Rightarrow> str list \<Rightarrow> str \<Rightarrow> filesystem \<times> str option" where
  "save_to_csv fs now1 now2 utterances intention =
     (let timestamp = strftime_Ymd_HMS now1;
          output_dir = u ''utterance_outputs_'' @ strftime_Ymd now2;
          fs1 = (if \<not> path_exists fs output_dir then makedirs fs output_dir else fs);
          filename = u ''utterances_'' @ timestamp @ u ''.csv'';
          filepath = output_dir @ u ''/'' @ filename;
          csv_data = map (\<lambda>(i, utterance). (i, utterance, intention))
                         (zip [1 ..< Suc (length utterances)] utterances)
      in if output_dir \<in> directories fs1 \<and> filepath \<notin> directories fs1
         then (case write_error fs1 filepath of
                 None \<Rightarrow>
                   (fs1\<lparr>files := (files fs1)(filepath \<mapsto>
                      ([u ''id'', u ''utterance'', u ''original_intention''], csv_data))\<rparr>,
                    Some filepath)
               | Some partial \<Rightarrow>
                   (fs1\<lparr>files := (files fs1)(filepath \<mapsto> partial)\<rparr>, None))
         else (fs1, None))"

section \<open>The housekeeping tool manage_outputs.py\<close>

text \<open>
  The working directory as \<^verbatim>\<open>os.listdir('.')\<close> gives it: the names, each with what it
  names. A directory carries the names of the files in it. A symbolic link to a
  directory carries the names in its target. \<open>Undeletable_dir names left\<close> is a directory
  that \<^verbatim>\<open>shutil.rmtree\<close> fails to remove (a matter of permissions): it holds
  \<open>names\<close>, and \<open>left\<close> is what the failed removal leaves in it.
\<close>

datatype entry =
    File
  | Dir "str list"
  | Symlink_to_dir "str list"
  | Undeletable_dir "str list" "str list"

type_synonym working_directory = "(str \<times> entry) list"

text \<open>\<^verbatim>\<open>os.path.isdir\<close> follows symbolic links.\<close>

definition isdir :: "working_directory \<Rightarrow> str \<Rightarrow> bool" where
  "isdir cwd item =
     (case map_of cwd item of
        Some (Dir _) \<Rightarrow> True
      | Some (Symlink_to_dir _) \<Rightarrow> True
      | Some (Undeletable_dir _ _) \<Rightarrow> True
      | _ \<Rightarrow> False)"

text \<open>Lines 11 to 17. \<^verbatim>\<open>sorted\<close> orders strings by code point, as the list order does.\<close>

definition list_output_folders :: "working_directory \<Rightarrow> str list" where
  "list_output_folders cwd =
     sort (filter (\<lambda>item. isdir cwd item \<and> startswith item (u ''utterance_outputs_''))
                  (map fst cwd))"

text \<open>\<^verbatim>\<open>s.replace(old, '')\<close>: every occurrence of \<open>old\<close> goes, scanning from the left.\<close>

function replace_by_empty :: "str \<Rightarrow> str \<Rightarrow> str" where
  "replace_by_empty old [] = []"
| "replace_by_empty old (c # cs) =
     (if old \<noteq> [] \<and> startswith (c # cs) old
      then replace_by_empty old (drop (length old) (c # cs))
      else c # replace_by_empty old cs)"
  by pat_completeness auto
termination
  by (relation "measure (\<lambda>(old, s). length s)") auto

text \<open>
  \<^verbatim>\<open>shutil.rmtree(folder)\<close>: the working directory after the call, and the exception it
  raises, if any. A directory goes with all that is in it. On a symbolic link the call
  raises \<^verbatim>\<open>OSError\<close> and removes nothing; so it does on a name that is not a directory.
  On a directory it cannot remove it raises \<^verbatim>\<open>OSError\<close> with part of the content gone.
\<close>

definition rmtree :: "working_directory \<Rightarrow> str \<Rightarrow> working_directory \<times> py_exception option" where
  "rmtree cwd folder =
     (case map_of cwd folder of
        Some (Dir names) \<Rightarrow> (filter (\<lambda>(name, e). name \<noteq> folder) cwd, None)
      | Some (Undeletable_dir names left) \<Rightarrow>
          (map (\<lambda>(name, e). if name = folder then (name, Undeletable_dir left left)
                           else (name, e)) cwd,
           Some OSError)
      | _ \<Rightarrow> (cwd, Some OSError))"

text \<open>
  A naive \<^verbatim>\<open>datetime\<close> is compared and moved by its place on the time line, so here it
  is the number of microseconds since 0001-01-01 00:00:00. \<^verbatim>\<open>timedelta(days=n)\<close>
  accepts up to 999999999 days either way, and a \<^verbatim>\<open>datetime\<close> outside the years 1 to
  9999 raises \<^verbatim>\<open>OverflowError\<close>.
\<close>

type_synonym instant = int

definition timedelta_days :: "int \<Rightarrow> py_exception + int" where
  "timedelta_days n =
     (if - 999999999 \<le> n \<and> n \<le> 999999999 then Inr (n * 86400000000) else Inl OverflowError)"

definition datetime_minus :: "instant \<Rightarrow> int \<Rightarrow> py_exception + instant" where
  "datetime_minus t delta =
     (if 0 \<le> t - delta \<and> t - delta < 315537897600000000 then Inr (t - delta)
      else Inl OverflowError)"

datatype cleanup_message =
    Cleaned_old_folder str
  | Skipped_folder_with_invalid_date_format str

text \<open>
  The loop of lines 25 to 36. \<^verbatim>\<open>datetime.strptime(date_str, '%Y%m%d')\<close> is the library's:
  it is the parameter \<open>strptime\<close>, with \<open>None\<close> where it raises \<^verbatim>\<open>ValueError\<close>.
  The state is the working directory, \<open>cleaned\<close> and what has been printed. The handler
  is \<^verbatim>\<open>except ValueError\<close>, so an \<^verbatim>\<open>OSError\<close> of \<^verbatim>\<open>shutil.rmtree\<close> ends the loop and
  leaves the function: the result is the state reached and that exception.
\<close>

fun for_folders ::
  "(str \<Rightarrow> instant option) \<Rightarrow> instant \<Rightarrow> str list \<Rightarrow>
   working_directory \<times> str list \<times> cleanup_message list \<Rightarrow>
   (working_directory \<times> str list \<times> cleanup_message list) \<times> py_exception option" where
  "for_folders strptime cutoff_date [] state = (state, None)"
| "for_folders strptime cutoff_date (folder # folders) (cwd, cleaned, printed) =
     (let date_str = replace_by_empty (u ''utterance_outputs_'') folder in
      case strptime date_str of
        None \<Rightarrow>
          for_folders strptime cutoff_date folders
            (cwd, cleaned, printed @ [Skipped_folder_with_invalid_date_format folder])
      | Some folder_date \<Rightarrow>
          if folder_date < cutoff_date
          then (case rmtree cwd folder of
                  (cwd', Some e) \<Rightarrow> ((cwd', cleaned, printed), Some e)
                | (cwd', None) \<Rightarrow>
                    for_folders strptime cutoff_date folders
                      (cwd', cleaned @ [folder], printed @ [Cleaned_old_folder folder]))
          else for_folders strptime cutoff_date folders (cwd, cleaned, printed))"

text \<open>
  Lines 20 to 38, with the clock reading \<open>now\<close> of line 22: the working directory after
  the call, what was printed, and the list returned or the exception raised.
\<close>

definition clean_old_folders ::
  "(str \<Rightarrow> instant option) \<Rightarrow> instant \<Rightarrow> int \<Rightarrow> working_directory \<Rightarrow>
   working_directory \<times> cleanup_message list \<times> (py_exception + str list)" where
  "clean_old_folders strptime now days_old cwd =
     (case timedelta_days days_old of
        Inl e \<Rightarrow> (cwd, [], Inl e)
      | Inr delta \<Rightarrow>
          (case datetime_minus now delta of
             Inl e \<Rightarrow> (cwd, [], Inl e)
           | Inr cutoff_date \<Rightarrow>
               (case for_folders strptime cutoff_date (list_output_folders cwd) (cwd, [], []) of
                  ((cwd', cleaned, printed), None) \<Rightarrow> (cwd', printed, Inr cleaned)
                | ((cwd', cleaned, printed), Some e) \<Rightarrow> (cwd', printed, Inl e))))"

text \<open>Lines 41 to 57: only reads.\<close>

definition endswith :: "str \<Rightarrow> str \<Rightarrow> bool" where
  "endswith s p = (length p \<le> length s \<and> drop (length s - length p) s = p)"

datatype stats_message =
    No_output_folders_found
  | Found_output_folders nat
  | Folder_csv_files str nat
  | Total_csv_files nat

definition listdir :: "working_directory \<Rightarrow> str \<Rightarrow> str list" where
  "listdir cwd folder =
     (case map_of cwd folder of
        Some (Dir names) \<Rightarrow> names
      | Some (Symlink_to_dir names) \<Rightarrow> names
      | Some (Undeletable_dir names left) \<Rightarrow> names
      | _ \<Rightarrow> [])"

definition show_folder_stats :: "working_directory \<Rightarrow> stats_message list" where
  "show_folder_stats cwd =
     (let folders = list_output_folders cwd in
      if folders = [] then [No_output_folders_found]
      else
        (let counts = map (\<lambda>folder.
               (folder, length (filter (\<lambda>f. endswith f (u ''.csv'')) (listdir cwd folder)))) folders
         in [Found_output_folders (length folders)] @
            map (\<lambda>(folder, n). Folder_csv_files folder n) counts @
            [Total_csv_files (sum_list (map snd counts))]))"

text \<open>
  The menu loop of lines 65 to 99, over the lines typed and the clock reading at each:
  the working directory at the end, and the exception that ended the run, if one did
  (\<^verbatim>\<open>input\<close> raises \<^verbatim>\<open>EOFError\<close> when nothing is left to read). The menu's own
  messages are left out.
\<close>

fun menu_loop ::
  "(str \<Rightarrow> instant option) \<Rightarrow> (str \<times> instant) list \<Rightarrow> working_directory \<Rightarrow>
   working_directory \<times> py_exception option" where
  "menu_loop strptime [] cwd = (cwd, Some EOFError)"
| "menu_loop strptime ((typed, now) # rest) cwd =
     (let choice = strip typed in
      if choice = u ''1'' then menu_loop strptime rest cwd
      else if choice = u ''2'' then menu_loop strptime rest cwd
      else if choice = u ''3'' then
        (case clean_old_folders strptime now 7 cwd of
           (cwd', printed, Inl e) \<Rightarrow> (cwd', Some e)
         | (cwd', printed, Inr cleaned) \<Rightarrow> menu_loop strptime rest cwd')
      else if choice = u ''4'' then (cwd, None)
      else menu_loop strptime rest cwd)"

section \<open>Auxiliary notions for the statements\<close>

text \<open>
  The lines on which the copy in main_simple.py and the copies in main.py part ways:
  after trimming, the line begins with \<^verbatim>\<open>1.\<close> or \<^verbatim>\<open>2.\<close>, or it is one digit followed
  by a dot.
\<close>

definition drifting_line :: "str \<Rightarrow> bool" where
  "drifting_line line =
     (let cleaned = strip line in
      startswith_any cleaned [u ''1.'', u ''2.''] \<or>
      (length cleaned = 2 \<and> first_isdigit cleaned \<and> 46 \<in> set cleaned))"


text \<open>Fifteen distinct well-formed lines, \<^verbatim>\<open>a\<close> to \<^verbatim>\<open>o\<close>.\<close>

definition fifteen_lines :: str where
  "fifteen_lines =
     u ''a'' @ [10] @ u ''b'' @ [10] @ u ''c'' @ [10] @ u ''d'' @ [10] @ u ''e'' @ [10] @
     u ''f'' @ [10] @ u ''g'' @ [10] @ u ''h'' @ [10] @ u ''i'' @ [10] @ u ''j'' @ [10] @
     u ''k'' @ [10] @ u ''l'' @ [10] @ u ''m'' @ [10] @ u ''n'' @ [10] @ u ''o''"





text \<open>Reading the record of a run of \<^verbatim>\<open>main\<close>.\<close>

fun is_direct_api_call :: "action \<Rightarrow> bool" where
  "is_direct_api_call (Call_generate_utterances_direct_api _) = True"
| "is_direct_api_call _ = False"

fun is_save_to_csv_call :: "action \<Rightarrow> bool" where
  "is_save_to_csv_call (Call_save_to_csv _ _) = True"
| "is_save_to_csv_call _ = False"


text \<open>A world in which the session cannot be created and no API key is set.\<close>

definition failing_env :: main_env where
  "failing_env =
     \<lparr>adk = \<lparr>create_session = Some Exception, run_async = (\<lambda>prompt. ([], None))\<rparr>,
      genai = \<lparr>import_genai = None, GOOGLE_API_KEY = None,
               generate_content = (\<lambda>prompt. Inr None)\<rparr>\<rparr>"

text \<open>
  For \<^verbatim>\<open>save_to_csv\<close>: readings in the same calendar second or day, the rows written,
  and the path the function builds.
\<close>

definition same_second :: "datetime \<Rightarrow> datetime \<Rightarrow> bool" where
  "same_second a b =
     (year a = year b \<and> month a = month b \<and> day a = day b \<and>
      hour a = hour b \<and> minute a = minute b \<and> second a = second b)"

definition same_day :: "datetime \<Rightarrow> datetime \<Rightarrow> bool" where
  "same_day a b = (year a = year b \<and> month a = month b \<and> day a = day b)"

definition csv_rows :: "str list \<Rightarrow> str \<Rightarrow> csv_row list" where
  "csv_rows utterances intention =
     map (\<lambda>(i, utterance). (i, utterance, intention))
         (zip [1 ..< Suc (length utterances)] utterances)"

definition filepath_of :: "datetime \<Rightarrow> datetime \<Rightarrow> str" where
  "filepath_of now1 now2 =
     u ''utterance_outputs_'' @ strftime_Ymd now2 @ u ''/'' @
     u ''utterances_'' @ strftime_Ymd_HMS now1 @ u ''.csv''"


text \<open>
  An empty working directory in which every write succeeds, and three clock readings of
  2 January 2024.
\<close>

definition empty_filesystem :: filesystem where
  "empty_filesystem = \<lparr>directories = {}, files = Map.empty, write_error = (\<lambda>p. None)\<rparr>"

definition noon :: datetime where
  "noon = \<lparr>year = 2024, month = 1, day = 2, hour = 12, minute = 0, second = 0, microsecond = 0\<rparr>"

definition noon_and_a_half :: datetime where
  "noon_and_a_half = noon\<lparr>microsecond := 500000\<rparr>"

definition one_second_later :: datetime where
  "one_second_later = noon\<lparr>second := 1\<rparr>"

definition first_save :: "filesystem \<times> str option" where
  "first_save = save_to_csv empty_filesystem noon noon [u ''first''] (u ''x'')"

text \<open>
  For the housekeeping tool: the date string a folder name carries, whether it parses to
  an instant before the cutoff, what the loop prints for the folder, the working
  directory without some names, and the entries whose name lacks the prefix.
\<close>

definition date_str_of :: "str \<Rightarrow> str" where
  "date_str_of folder = replace_by_empty (u ''utterance_outputs_'') folder"

definition older_than :: "(str \<Rightarrow> instant option) \<Rightarrow> instant \<Rightarrow> str \<Rightarrow> bool" where
  "older_than strptime cutoff_date folder =
     (case strptime (date_str_of folder) of
        None \<Rightarrow> False
      | Some folder_date \<Rightarrow> folder_date < cutoff_date)"

definition message_for ::
  "(str \<Rightarrow> instant option) \<Rightarrow> instant \<Rightarrow> str \<Rightarrow> cleanup_message list" where
  "message_for strptime cutoff_date folder =
     (case strptime (date_str_of folder) of
        None \<Rightarrow> [Skipped_folder_with_invalid_date_format folder]
      | Some folder_date \<Rightarrow>
          if folder_date < cutoff_date then [Cleaned_old_folder folder] else [])"

definition without :: "str list \<Rightarrow> working_directory \<Rightarrow> working_directory" where
  "without names cwd = filter (\<lambda>(name, e). name \<notin> set names) cwd"

definition unprefixed :: "working_directory \<Rightarrow> working_directory" where
  "unprefixed cwd = filter (\<lambda>(name, e). \<not> startswith name (u ''utterance_outputs_'')) cwd"


text \<open>
  A working directory on 15 January 2024, 12:00, and the instants that
  \<^verbatim>\<open>datetime.strptime(s, '%Y%m%d')\<close> gives for the three date strings in it (any other
  string there is rejected).
\<close>

definition example_strptime :: "str \<Rightarrow> instant option" where
  "example_strptime s =
     (if s = u ''20200101'' then Some 63713433600000000
      else if s = u ''20240108'' then Some 63840268800000000
      else if s = u ''20240110'' then Some 63840441600000000
      else None)"

definition example_cwd :: working_directory where
  "example_cwd =
     [(u ''utterance_outputs_20240110'', Dir [u ''utterances_20240110_090000.csv'']),
      (u ''notes.txt'', File),
      (u ''utterance_outputs_20200101'', Dir [u ''utterances_20200101_101500.csv'']),
      (u ''utterance_outputs_backup'', Dir []),
      (u ''utterance_outputs_20240108'', Dir []),
      (u ''old_outputs_20200101'', Dir [])]"

definition example_now :: instant where
  "example_now = 63840916800000000"

text \<open>
  A directory that \<^verbatim>\<open>shutil.rmtree\<close> removes: a real directory, not a symbolic link to
  one, and not one that resists removal. And a working directory in which the oldest
  output folder is a symbolic link to a directory.
\<close>

definition is_plain_dir :: "working_directory \<Rightarrow> str \<Rightarrow> bool" where
  "is_plain_dir cwd folder = (case map_of cwd folder of Some (Dir names) \<Rightarrow> True | _ \<Rightarrow> False)"


section \<open>Properties\<close>

subsection \<open>Built-ins\<close>

lemmas py_eval = u_def strip_def isspace_def startswith_def startswith_any_def
  first_isdigit_def isdigit_def digit_ranges_def split_once_def item1_def
  numbered_prefix_removed_def Let_def

declare while_len_lt_10_append.simps [simp del]

lemma while_append_replicate:
  "while_len_lt_10_append us p = us @ replicate (10 - length us) p"
proof (induction us p rule: while_len_lt_10_append.induct)
  case (1 utterances placeholder)
  show ?case
  proof (cases "length utterances < 10")
    case True
    then have "10 - length utterances = Suc (10 - length (utterances @ [placeholder]))" by simp
    with True 1 show ?thesis
      by (subst while_len_lt_10_append.simps) (simp add: replicate_app_Cons_same)
  next
    case False
    then show ?thesis by (subst while_len_lt_10_append.simps) simp
  qed
qed

lemma dropWhile_rev_dropWhile_rev:
  "dropWhile P (rev (dropWhile P (rev (dropWhile P s)))) = rev (dropWhile P (rev (dropWhile P s)))"
proof (cases "dropWhile P (rev (dropWhile P s)) = []")
  case True
  then show ?thesis by (simp del: dropWhile_eq_Nil_conv)
next
  case False
  define d where "d = dropWhile P s"
  define r where "r = dropWhile P (rev d)"
  from False have rne: "r \<noteq> []" by (simp add: r_def d_def)
  then obtain x where x: "x \<in> set (rev d)" "\<not> P x"
    unfolding r_def by (auto simp: dropWhile_eq_Nil_conv)
  then have dne: "d \<noteq> []" by auto
  then have "\<not> P (hd d)" unfolding d_def by (rule hd_dropWhile)
  moreover have "last r = last (rev d)" unfolding r_def using x by (rule dropWhile_last)
  moreover have "last (rev d) = hd d" using dne by (simp add: last_rev)
  moreover have "hd (rev r) = last r" using rne by (simp add: hd_rev)
  ultimately have "\<not> P (hd (rev r))" by simp
  then have "dropWhile P (rev r) = rev r" by (cases "rev r") auto
  then show ?thesis by (simp add: r_def d_def)
qed

lemma strip_idem: "strip (strip s) = strip s"
  by (simp add: strip_def dropWhile_rev_dropWhile_rev dropWhile_idem)

lemma strip_nonempty_iff: "strip s \<noteq> [] \<longleftrightarrow> (\<exists>c\<in>set s. \<not> isspace c)"
  unfolding strip_def
  by (metis dropWhile_eq_Nil_conv set_rev rev_is_Nil_conv dropWhile_idem)

lemma set_split_sep: "line \<in> set (split_sep sep raw) \<Longrightarrow> set line \<subseteq> set raw"
proof (induction raw arbitrary: line)
  case Nil
  then show ?case by simp
next
  case (Cons c cs)
  show ?case
  proof (cases "c = sep")
    case True
    with Cons show ?thesis by auto
  next
    case False
    with Cons show ?thesis by (fastforce split: list.splits)
  qed
qed

lemma item1_split_once:
  "sep \<in> set s \<Longrightarrow> item1 (split_once sep s) = Inr (drop 1 (dropWhile (\<lambda>c. c \<noteq> sep) s))"
  by (induction s) (auto simp: split_once_def item1_def split: list.splits)

subsection \<open>The loops compute the parsed entries\<close>

lemma numbered_rest:
  "46 \<in> set (take 5 s) \<Longrightarrow>
   (case item1 (split_once 46 s) of Inl e \<Rightarrow> Inl e | Inr rest \<Rightarrow> Inr (strip rest)) =
   Inr (numbered_prefix_removed s)"
  by (simp add: item1_split_once [OF in_set_takeD] numbered_prefix_removed_def)

lemma loop_body_adk_eq:
  "loop_body_adk line us = Inr (case entry_main line of None \<Rightarrow> us | Some c \<Rightarrow> us @ [c])"
  by (simp add: loop_body_adk_def entry_main_def Let_def numbered_rest)

lemma loop_body_direct_eq:
  "loop_body_direct line us = Inr (case entry_main line of None \<Rightarrow> us | Some c \<Rightarrow> us @ [c])"
  by (simp add: loop_body_direct_def entry_main_def Let_def numbered_rest)

lemma loop_body_simple_eq:
  "loop_body_simple line us = Inr (case entry_simple line of None \<Rightarrow> us | Some c \<Rightarrow> us @ [c])"
  by (simp add: loop_body_simple_def entry_simple_def Let_def numbered_rest)

lemma for_lines_adk_eq: "for_lines_adk lines us = Inr (us @ List.map_filter entry_main lines)"
  by (induction lines arbitrary: us)
     (simp_all add: loop_body_adk_eq split: option.split)

lemma for_lines_direct_eq: "for_lines_direct lines us = Inr (us @ List.map_filter entry_main lines)"
  by (induction lines arbitrary: us)
     (simp_all add: loop_body_direct_eq split: option.split)

lemma for_lines_simple_eq: "for_lines_simple lines us = Inr (us @ List.map_filter entry_simple lines)"
  by (induction lines arbitrary: us)
     (simp_all add: loop_body_simple_eq split: option.split)

lemma normalize_adk_eq:
  "normalize_adk raw i = Inr (pad10 (parsed_entries_main raw) (u ''Alternative expression: '' @ i))"
  by (simp add: normalize_adk_def for_lines_adk_eq while_append_replicate parsed_entries_main_def pad10_def)

lemma normalize_direct_eq:
  "normalize_direct raw i = Inr (pad10 (parsed_entries_main raw) (u ''Alternative expression: '' @ i))"
  by (simp add: normalize_direct_def for_lines_direct_eq while_append_replicate parsed_entries_main_def pad10_def)

lemma normalize_simple_eq:
  "normalize_simple raw i = Inr (pad10 (parsed_entries_simple raw) (u ''Alternative way to say: '' @ i))"
  by (simp add: normalize_simple_def for_lines_simple_eq while_append_replicate parsed_entries_simple_def pad10_def)

lemma length_pad10: "length (pad10 es p) = 10"
  by (simp add: pad10_def)

lemma set_pad10: "set (pad10 es p) \<subseteq> set es \<union> {p}"
proof -
  have "set (pad10 es p) \<subseteq> set (es @ replicate (10 - length es) p)"
    unfolding pad10_def by (rule set_take_subset)
  also have "\<dots> \<subseteq> set es \<union> {p}" by auto
  finally show ?thesis .
qed

lemma entry_main_stripped: "entry_main line = Some e \<Longrightarrow> e \<noteq> [] \<and> strip e = e"
  by (auto simp: entry_main_def Let_def numbered_prefix_removed_def strip_idem split: if_splits)

lemma entry_simple_stripped: "entry_simple line = Some e \<Longrightarrow> e \<noteq> [] \<and> strip e = e"
  by (auto simp: entry_simple_def Let_def numbered_prefix_removed_def strip_idem split: if_splits)

lemma in_set_map_filterD: "e \<in> set (List.map_filter f xs) \<Longrightarrow> \<exists>x\<in>set xs. f x = Some e"
  by (auto simp: List.map_filter_def)

lemma parsed_entries_main_stripped: "e \<in> set (parsed_entries_main raw) \<Longrightarrow> strip e \<noteq> []"
  by (auto simp: parsed_entries_main_def dest!: in_set_map_filterD entry_main_stripped)

lemma parsed_entries_simple_stripped: "e \<in> set (parsed_entries_simple raw) \<Longrightarrow> strip e \<noteq> []"
  by (auto simp: parsed_entries_simple_def dest!: in_set_map_filterD entry_simple_stripped)

lemma strip_placeholder_main: "strip (u ''Alternative expression: '' @ i) \<noteq> []"
  by (simp add: strip_nonempty_iff u_def isspace_def)

lemma strip_placeholder_simple: "strip (u ''Alternative way to say: '' @ i) \<noteq> []"
  by (simp add: strip_nonempty_iff u_def isspace_def)

lemma pad10_main_nonblank:
  "list_all (\<lambda>x. strip x \<noteq> []) (pad10 (parsed_entries_main raw) (u ''Alternative expression: '' @ i))"
  unfolding list_all_iff
  using set_pad10 parsed_entries_main_stripped strip_placeholder_main by blast

lemma pad10_simple_nonblank:
  "list_all (\<lambda>x. strip x \<noteq> []) (pad10 (parsed_entries_simple raw) (u ''Alternative way to say: '' @ i))"
  unfolding list_all_iff
  using set_pad10 parsed_entries_simple_stripped strip_placeholder_simple by blast

lemma well_formed_line_guard:
  assumes "list_ex well_formed_line (split_sep 10 raw)"
  shows "strip raw \<noteq> []" and "raw \<noteq> []"
proof -
  from assms obtain line where l: "line \<in> set (split_sep 10 raw)" "strip line \<noteq> []"
    by (auto simp: list_ex_iff well_formed_line_def Let_def)
  then obtain c where "c \<in> set line" "\<not> isspace c" by (auto simp: strip_nonempty_iff)
  with l(1) set_split_sep have "c \<in> set raw" by blast
  with \<open>\<not> isspace c\<close> show "strip raw \<noteq> []" by (auto simp: strip_nonempty_iff)
  from \<open>c \<in> set raw\<close> show "raw \<noteq> []" by auto
qed

subsection \<open>Claims about the normalisation\<close>

text \<open>
  C1. For every raw response with at least one well-formed line and every non-empty
  trimmed intention, the normalisation step of each of the three clients returns a list
  of exactly ten strings, none of them empty or blank after trimming.
\<close>

theorem normalization_yields_ten_nonblank:
  assumes "list_ex well_formed_line (split_sep 10 raw)"
    and "intention \<noteq> []" and "strip intention = intention"
  shows "(\<exists>us. parse_response_adk raw intention = Inr (Some us) \<and> length us = 10 \<and>
               list_all (\<lambda>x. strip x \<noteq> []) us) \<and>
         (\<exists>us. parse_response_direct raw intention = Inr (Some us) \<and> length us = 10 \<and>
               list_all (\<lambda>x. strip x \<noteq> []) us) \<and>
         (\<exists>us. parse_response_simple raw intention = Inr (Some us) \<and> length us = 10 \<and>
               list_all (\<lambda>x. strip x \<noteq> []) us)"
proof -
  note g = well_formed_line_guard [OF assms(1)]
  have "parse_response_adk raw intention =
          Inr (Some (pad10 (parsed_entries_main raw) (u ''Alternative expression: '' @ intention)))"
    using g by (simp add: parse_response_adk_def normalize_adk_eq)
  moreover have "parse_response_direct raw intention =
          Inr (Some (pad10 (parsed_entries_main raw) (u ''Alternative expression: '' @ intention)))"
    using g by (simp add: parse_response_direct_def normalize_direct_eq)
  moreover have "parse_response_simple raw intention =
          Inr (Some (pad10 (parsed_entries_simple raw) (u ''Alternative way to say: '' @ intention)))"
    using g by (simp add: parse_response_simple_def normalize_simple_eq)
  ultimately show ?thesis
    by (simp add: length_pad10 pad10_main_nonblank pad10_simple_nonblank)
qed

theorem normalization_yields_ten_nonblank_witness:
  "list_ex well_formed_line (split_sep 10 (u ''Hello there'')) \<and>
   u ''greet'' \<noteq> [] \<and> strip (u ''greet'') = u ''greet'' \<and>
   (\<exists>us. parse_response_adk (u ''Hello there'') (u ''greet'') = Inr (Some us) \<and>
         length us = 10 \<and> list_all (\<lambda>x. strip x \<noteq> []) us) \<and>
   (\<exists>us. parse_response_direct (u ''Hello there'') (u ''greet'') = Inr (Some us) \<and>
         length us = 10 \<and> list_all (\<lambda>x. strip x \<noteq> []) us) \<and>
   (\<exists>us. parse_response_simple (u ''Hello there'') (u ''greet'') = Inr (Some us) \<and>
         length us = 10 \<and> list_all (\<lambda>x. strip x \<noteq> []) us)"
proof -
  have a: "list_ex well_formed_line (split_sep 10 (u ''Hello there''))"
    by (simp add: well_formed_line_def py_eval)
  have b: "u ''greet'' \<noteq> []" by (simp add: u_def)
  have c: "strip (u ''greet'') = u ''greet''" by (simp add: py_eval)
  from normalization_yields_ten_nonblank [OF a b c] a b c show ?thesis by blast
qed

lemma parsed_main_guard:
  assumes "parsed_entries_main raw \<noteq> []"
  shows "strip raw \<noteq> []" and "raw \<noteq> []"
proof -
  from assms obtain e where "e \<in> set (parsed_entries_main raw)" by (cases "parsed_entries_main raw") auto
  then obtain line where l: "line \<in> set (split_sep 10 raw)" "entry_main line = Some e"
    by (auto simp: parsed_entries_main_def dest!: in_set_map_filterD)
  then have "strip line \<noteq> []" by (auto simp: entry_main_def Let_def split: if_splits)
  then obtain c where "c \<in> set line" "\<not> isspace c" by (auto simp: strip_nonempty_iff)
  with l(1) set_split_sep have "c \<in> set raw" by blast
  with \<open>\<not> isspace c\<close> show "strip raw \<noteq> []" by (auto simp: strip_nonempty_iff)
  from \<open>c \<in> set raw\<close> show "raw \<noteq> []" by auto
qed

lemma parsed_simple_guard:
  assumes "parsed_entries_simple raw \<noteq> []"
  shows "raw \<noteq> []"
proof -
  from assms obtain e where "e \<in> set (parsed_entries_simple raw)" by (cases "parsed_entries_simple raw") auto
  then obtain line where l: "line \<in> set (split_sep 10 raw)" "entry_simple line = Some e"
    by (auto simp: parsed_entries_simple_def dest!: in_set_map_filterD)
  then have "strip line \<noteq> []" by (auto simp: entry_simple_def Let_def split: if_splits)
  then obtain c where "c \<in> set line" "\<not> isspace c" by (auto simp: strip_nonempty_iff)
  with l(1) set_split_sep have "c \<in> set raw" by blast
  then show "raw \<noteq> []" by auto
qed

lemma pad10_long: "10 \<le> length es \<Longrightarrow> pad10 es p = take 10 es"
  by (simp add: pad10_def)

lemma pad10_short: "length es < 10 \<Longrightarrow> pad10 es p = es @ replicate (10 - length es) p"
  by (simp add: pad10_def)


text \<open>
  C6. The loop of each copy yields the parsed entries in the order of the input lines,
  and when more than ten entries are parsed the output is exactly the first ten of them:
  only the trailing surplus is dropped and nothing is reordered.
\<close>

theorem truncation_keeps_first_ten:
  "(for_lines_adk (split_sep 10 raw) [] = Inr (parsed_entries_main raw) \<and>
    (10 < length (parsed_entries_main raw) \<longrightarrow>
       parse_response_adk raw intention = Inr (Some (take 10 (parsed_entries_main raw))))) \<and>
   (for_lines_direct (split_sep 10 raw) [] = Inr (parsed_entries_main raw) \<and>
    (10 < length (parsed_entries_main raw) \<longrightarrow>
       parse_response_direct raw intention = Inr (Some (take 10 (parsed_entries_main raw))))) \<and>
   (for_lines_simple (split_sep 10 raw) [] = Inr (parsed_entries_simple raw) \<and>
    (10 < length (parsed_entries_simple raw) \<longrightarrow>
       parse_response_simple raw intention = Inr (Some (take 10 (parsed_entries_simple raw)))))"
proof -
  have m: "parsed_entries_main raw \<noteq> []" if "10 < length (parsed_entries_main raw)"
    using that by auto
  have s: "parsed_entries_simple raw \<noteq> []" if "10 < length (parsed_entries_simple raw)"
    using that by auto
  have "parse_response_adk raw intention = Inr (Some (take 10 (parsed_entries_main raw)))"
    if "10 < length (parsed_entries_main raw)"
    using that parsed_main_guard(1) [OF m [OF that]]
    by (simp add: parse_response_adk_def normalize_adk_eq pad10_long)
  moreover have "parse_response_direct raw intention = Inr (Some (take 10 (parsed_entries_main raw)))"
    if "10 < length (parsed_entries_main raw)"
    using that parsed_main_guard(2) [OF m [OF that]]
    by (simp add: parse_response_direct_def normalize_direct_eq pad10_long)
  moreover have "parse_response_simple raw intention = Inr (Some (take 10 (parsed_entries_simple raw)))"
    if "10 < length (parsed_entries_simple raw)"
    using that parsed_simple_guard [OF s [OF that]]
    by (simp add: parse_response_simple_def normalize_simple_eq pad10_long)
  ultimately show ?thesis
    by (simp add: for_lines_adk_eq for_lines_direct_eq for_lines_simple_eq
        parsed_entries_main_def parsed_entries_simple_def)
qed

lemma fifteen_main:
  "parsed_entries_main fifteen_lines =
     [u ''a'', u ''b'', u ''c'', u ''d'', u ''e'', u ''f'', u ''g'', u ''h'', u ''i'', u ''j'',
      u ''k'', u ''l'', u ''m'', u ''n'', u ''o'']"
  by (simp add: parsed_entries_main_def fifteen_lines_def entry_main_def py_eval)

lemma fifteen_simple:
  "parsed_entries_simple fifteen_lines =
     [u ''a'', u ''b'', u ''c'', u ''d'', u ''e'', u ''f'', u ''g'', u ''h'', u ''i'', u ''j'',
      u ''k'', u ''l'', u ''m'', u ''n'', u ''o'']"
  by (simp add: parsed_entries_simple_def fifteen_lines_def entry_simple_def py_eval)

theorem truncation_keeps_first_ten_witness:
  "10 < length (parsed_entries_main fifteen_lines) \<and>
   10 < length (parsed_entries_simple fifteen_lines) \<and>
   parse_response_adk fifteen_lines (u ''x'') =
     Inr (Some [u ''a'', u ''b'', u ''c'', u ''d'', u ''e'', u ''f'', u ''g'', u ''h'', u ''i'', u ''j'']) \<and>
   parse_response_direct fifteen_lines (u ''x'') =
     Inr (Some [u ''a'', u ''b'', u ''c'', u ''d'', u ''e'', u ''f'', u ''g'', u ''h'', u ''i'', u ''j'']) \<and>
   parse_response_simple fifteen_lines (u ''x'') =
     Inr (Some [u ''a'', u ''b'', u ''c'', u ''d'', u ''e'', u ''f'', u ''g'', u ''h'', u ''i'', u ''j''])"
  using truncation_keeps_first_ten [of fifteen_lines "u ''x''"]
  by (simp add: fifteen_main fifteen_simple)

lemma parsed_entries_main_empty: "parsed_entries_main [] = []"
  by (simp add: parsed_entries_main_def entry_main_def py_eval)

lemma parsed_entries_simple_empty: "parsed_entries_simple [] = []"
  by (simp add: parsed_entries_simple_def entry_simple_def py_eval)

text \<open>
  C3, as stated, fails: on an empty response each client returns \<^verbatim>\<open>None\<close> before it
  normalises anything, and the copy in main_simple.py pads with another sentence.
\<close>

theorem empty_text_placeholders_counterexample:
  "parse_response_adk [] (u ''hi'') = Inr None \<and>
   parse_response_direct [] (u ''hi'') = Inr None \<and>
   parse_response_simple [] (u ''hi'') = Inr None \<and>
   normalize_simple [] (u ''hi'') = Inr (replicate 10 (u ''Alternative way to say: hi'')) \<and>
   normalize_simple [] (u ''hi'') \<noteq> Inr (replicate 10 (u ''Alternative expression: hi''))"
  by (simp add: parse_response_adk_def parse_response_direct_def parse_response_simple_def
      normalize_simple_eq parsed_entries_simple_empty pad10_def py_eval)

text \<open>
  C3, amended. Normalising an empty response gives ten placeholders: of the form
  \<^verbatim>\<open>Alternative expression: {intention}\<close> in the two copies of main.py and of the form
  \<^verbatim>\<open>Alternative way to say: {intention}\<close> in main_simple.py. Whenever fewer than ten
  entries survive parsing, placeholders of the copy's own form are appended until there
  are ten. The clients themselves answer an empty response with \<^verbatim>\<open>None\<close>.
\<close>

theorem padding_per_copy:
  "normalize_adk [] intention = Inr (replicate 10 (u ''Alternative expression: '' @ intention)) \<and>
   normalize_direct [] intention = Inr (replicate 10 (u ''Alternative expression: '' @ intention)) \<and>
   normalize_simple [] intention = Inr (replicate 10 (u ''Alternative way to say: '' @ intention)) \<and>
   parse_response_adk [] intention = Inr None \<and>
   parse_response_direct [] intention = Inr None \<and>
   parse_response_simple [] intention = Inr None \<and>
   (length (parsed_entries_main raw) < 10 \<longrightarrow>
      normalize_adk raw intention =
        Inr (parsed_entries_main raw @
             replicate (10 - length (parsed_entries_main raw))
               (u ''Alternative expression: '' @ intention)) \<and>
      normalize_direct raw intention =
        Inr (parsed_entries_main raw @
             replicate (10 - length (parsed_entries_main raw))
               (u ''Alternative expression: '' @ intention))) \<and>
   (length (parsed_entries_simple raw) < 10 \<longrightarrow>
      normalize_simple raw intention =
        Inr (parsed_entries_simple raw @
             replicate (10 - length (parsed_entries_simple raw))
               (u ''Alternative way to say: '' @ intention)))"
  by (simp add: normalize_adk_eq normalize_direct_eq normalize_simple_eq
      parsed_entries_main_empty parsed_entries_simple_empty pad10_def
      parse_response_adk_def parse_response_direct_def parse_response_simple_def strip_def)

theorem padding_per_copy_witness:
  "length (parsed_entries_main (u ''- Hi'')) < 10 \<and>
   length (parsed_entries_simple (u ''Hi'')) < 10 \<and>
   normalize_adk (u ''- Hi'') (u ''x'') = Inr (replicate 10 (u ''Alternative expression: x'')) \<and>
   normalize_simple (u ''Hi'') (u ''x'') =
     Inr (u ''Hi'' # replicate 9 (u ''Alternative way to say: x''))"
  using padding_per_copy [of "u ''x''" "u ''- Hi''"] padding_per_copy [of "u ''x''" "u ''Hi''"]
  by (simp add: parsed_entries_main_def parsed_entries_simple_def entry_main_def
      entry_simple_def py_eval)

text \<open>
  C2 on the code. The line \<^verbatim>\<open>1. Hello there\<close> is dropped by the two copies in main.py,
  whose bullet tuple also lists \<^verbatim>\<open>1.\<close> and \<^verbatim>\<open>2.\<close>; only the copy in main_simple.py
  turns it into \<^verbatim>\<open>Hello there\<close>. The line \<^verbatim>\<open>- Hi\<close> is discarded by all three.
\<close>

theorem numbered_line_one_dropped_in_main:
  "loop_body_adk (u ''1. Hello there'') utterances = Inr utterances \<and>
   loop_body_direct (u ''1. Hello there'') utterances = Inr utterances \<and>
   loop_body_simple (u ''1. Hello there'') utterances = Inr (utterances @ [u ''Hello there'']) \<and>
   parse_response_adk (u ''1. Hello there'') intention =
     Inr (Some (replicate 10 (u ''Alternative expression: '' @ intention))) \<and>
   parse_response_simple (u ''1. Hello there'') intention =
     Inr (Some (u ''Hello there'' # replicate 9 (u ''Alternative way to say: '' @ intention))) \<and>
   loop_body_adk (u ''- Hi'') utterances = Inr utterances \<and>
   loop_body_direct (u ''- Hi'') utterances = Inr utterances \<and>
   loop_body_simple (u ''- Hi'') utterances = Inr utterances"
  by (simp add: loop_body_adk_def loop_body_direct_def loop_body_simple_def
      parse_response_adk_def parse_response_simple_def normalize_adk_def normalize_simple_def
      while_append_replicate py_eval)

lemma dot_not_digit: "\<not> isdigit 46"
  by (simp add: isdigit_def digit_ranges_def)

lemma numbered_line_longer_than_2:
  assumes "first_isdigit c" and "46 \<in> set (take 5 c)"
    and "\<not> (length c = 2 \<and> first_isdigit c \<and> 46 \<in> set c)"
  shows "2 < length c"
proof (cases c)
  case Nil
  with assms(1) show ?thesis by (simp add: first_isdigit_def)
next
  case (Cons x xs)
  with assms(1) have "isdigit x" by (simp add: first_isdigit_def)
  then have "x \<noteq> 46" using dot_not_digit by auto
  moreover from assms(2) have in_c: "46 \<in> set c" by (rule in_set_takeD)
  ultimately have "46 \<in> set xs" using Cons by auto
  then have "xs \<noteq> []" by auto
  then have "2 \<le> length c" using Cons by (cases xs) auto
  moreover from assms(1,3) in_c have "length c \<noteq> 2" by simp
  ultimately show ?thesis by simp
qed

lemma entry_simple_eq_main:
  assumes "\<not> drifting_line line"
  shows "entry_simple line = entry_main line"
proof -
  define c where "c = strip line"
  from assms have n: "\<not> startswith_any c [u ''1.'', u ''2.'']"
    and d: "\<not> (length c = 2 \<and> first_isdigit c \<and> 46 \<in> set c)"
    by (simp_all add: drifting_line_def c_def Let_def)
  from n have bullets: "startswith_any c [u ''-'', [8226], u ''*'', u ''1.'', u ''2.''] =
      startswith_any c [u ''-'', [8226], u ''*'']"
    by (simp add: startswith_any_def)
  have numbered: "(2 < length c \<and> first_isdigit c \<and> 46 \<in> set (take 5 c)) =
      (first_isdigit c \<and> 46 \<in> set (take 5 c))"
    using numbered_line_longer_than_2 [OF _ _ d] by blast
  show ?thesis
    unfolding entry_simple_def entry_main_def Let_def c_def [symmetric] bullets numbered ..
qed

lemma parsed_entries_simple_eq_main:
  "list_all (\<lambda>line. \<not> drifting_line line) (split_sep 10 raw) \<Longrightarrow>
   parsed_entries_simple raw = parsed_entries_main raw"
proof -
  have "list_all (\<lambda>line. \<not> drifting_line line) ls \<Longrightarrow>
        List.map_filter entry_simple ls = List.map_filter entry_main ls" for ls
    by (induction ls) (simp_all add: entry_simple_eq_main split: option.split)
  then show "list_all (\<lambda>line. \<not> drifting_line line) (split_sep 10 raw) \<Longrightarrow>
   parsed_entries_simple raw = parsed_entries_main raw"
    by (simp add: parsed_entries_simple_def parsed_entries_main_def)
qed

text \<open>
  C4, as stated, fails: on the response \<^verbatim>\<open>Hi\<close> the copy in main_simple.py pads with
  its own sentence.
\<close>

theorem copies_equal_counterexample:
  "normalize_adk (u ''Hi'') (u ''x'') =
     Inr (u ''Hi'' # replicate 9 (u ''Alternative expression: x'')) \<and>
   normalize_simple (u ''Hi'') (u ''x'') =
     Inr (u ''Hi'' # replicate 9 (u ''Alternative way to say: x'')) \<and>
   normalize_simple (u ''Hi'') (u ''x'') \<noteq> normalize_adk (u ''Hi'') (u ''x'')"
  by (simp add: normalize_adk_eq normalize_simple_eq pad10_def parsed_entries_main_def
      parsed_entries_simple_def entry_main_def entry_simple_def py_eval)

text \<open>
  C4, amended. The copies in \<^verbatim>\<open>generate_utterances\<close> and
  \<^verbatim>\<open>generate_utterances_direct_api\<close> are extensionally equal, and the two clients
  return the same list on every response that is not blank. The copy in
  \<^verbatim>\<open>generate_utterances_simple\<close> returns the same list as they do whenever at least ten
  entries survive parsing and no trimmed line begins with \<^verbatim>\<open>1.\<close> or \<^verbatim>\<open>2.\<close> or is one
  digit followed by a dot.
\<close>

theorem copies_in_main_equal:
  "normalize_adk raw intention = normalize_direct raw intention \<and>
   (strip raw \<noteq> [] \<longrightarrow>
      parse_response_adk raw intention = parse_response_direct raw intention) \<and>
   (list_all (\<lambda>line. \<not> drifting_line line) (split_sep 10 raw) \<and>
    10 \<le> length (parsed_entries_main raw) \<longrightarrow>
      parse_response_simple raw intention = parse_response_adk raw intention \<and>
      parse_response_simple raw intention = Inr (Some (take 10 (parsed_entries_main raw))))"
proof -
  have a: "normalize_adk raw intention = normalize_direct raw intention"
    by (simp add: normalize_adk_eq normalize_direct_eq)
  have b: "parse_response_adk raw intention = parse_response_direct raw intention"
    if "strip raw \<noteq> []"
  proof -
    from that have "raw \<noteq> []" by (auto simp: strip_def)
    with that a show ?thesis by (simp add: parse_response_adk_def parse_response_direct_def)
  qed
  have c: "parse_response_simple raw intention = parse_response_adk raw intention \<and>
      parse_response_simple raw intention = Inr (Some (take 10 (parsed_entries_main raw)))"
    if h: "list_all (\<lambda>line. \<not> drifting_line line) (split_sep 10 raw)"
       "10 \<le> length (parsed_entries_main raw)"
  proof -
    from h(2) have ne: "parsed_entries_main raw \<noteq> []" by auto
    note g = parsed_main_guard [OF ne]
    from parsed_entries_simple_eq_main [OF h(1)] h(2) g show ?thesis
      by (simp add: parse_response_simple_def parse_response_adk_def normalize_simple_eq
          normalize_adk_eq pad10_long)
  qed
  from a b c show ?thesis by blast
qed

lemma fifteen_no_drift: "list_all (\<lambda>line. \<not> drifting_line line) (split_sep 10 fifteen_lines)"
  by (simp add: fifteen_lines_def drifting_line_def py_eval)

theorem copies_in_main_equal_witness:
  "strip fifteen_lines \<noteq> [] \<and>
   list_all (\<lambda>line. \<not> drifting_line line) (split_sep 10 fifteen_lines) \<and>
   10 \<le> length (parsed_entries_main fifteen_lines) \<and>
   parse_response_adk fifteen_lines (u ''x'') = parse_response_direct fifteen_lines (u ''x'') \<and>
   parse_response_simple fifteen_lines (u ''x'') = parse_response_adk fifteen_lines (u ''x'') \<and>
   parse_response_simple fifteen_lines (u ''x'') =
     Inr (Some [u ''a'', u ''b'', u ''c'', u ''d'', u ''e'', u ''f'', u ''g'', u ''h'', u ''i'', u ''j''])"
proof -
  have a: "strip fifteen_lines \<noteq> []" by (simp add: fifteen_lines_def py_eval)
  have b: "10 \<le> length (parsed_entries_main fifteen_lines)" by (simp add: fifteen_main)
  have c: "take 10 (parsed_entries_main fifteen_lines) =
      [u ''a'', u ''b'', u ''c'', u ''d'', u ''e'', u ''f'', u ''g'', u ''h'', u ''i'', u ''j'']"
    by (simp add: fifteen_main)
  from copies_in_main_equal [of fifteen_lines "u ''x''"] a b fifteen_no_drift
  show ?thesis unfolding c by blast
qed

subsection \<open>Claims about the clients and the orchestration\<close>








lemma filter_display_direct: "filter is_direct_api_call (display_and_save us i) = []"
  by (simp add: display_and_save_def filter_empty_conv split_beta)

text \<open>
  C5. If the session-based client returns no usable result, the stateless client is
  called exactly once, with the same intention; if that also returns no usable result,
  the run prints the failure message and ends without a call to \<^verbatim>\<open>save_to_csv\<close>.
\<close>

theorem fallback_invoked_once:
  assumes "generate_utterances (adk env) intention = Inr r" and "not_list r"
  shows "filter is_direct_api_call (fst (main_orchestrate env intention)) =
           [Call_generate_utterances_direct_api intention] \<and>
         (\<forall>r'. generate_utterances_direct_api (genai env) intention = Inr r' \<and> not_list r' \<longrightarrow>
            main_orchestrate env intention =
              ([Call_generate_utterances intention,
                Print ADK_method_failed_trying_direct_API,
                Call_generate_utterances_direct_api intention,
                Print Failed_to_generate_utterances], None) \<and>
            filter is_save_to_csv_call (fst (main_orchestrate env intention)) = [])"
proof (cases "generate_utterances_direct_api (genai env) intention")
  case (Inl e)
  with assms show ?thesis
    by (simp add: main_orchestrate_def main_generate_def)
next
  case (Inr r')
  with assms show ?thesis
    by (simp add: main_orchestrate_def main_generate_def filter_display_direct)
qed

theorem fallback_invoked_once_witness:
  "generate_utterances (adk failing_env) (u ''order a pizza'') = Inr None \<and>
   not_list (None :: str list option) \<and>
   generate_utterances_direct_api (genai failing_env) (u ''order a pizza'') = Inr None \<and>
   filter is_direct_api_call (fst (main_orchestrate failing_env (u ''order a pizza''))) =
     [Call_generate_utterances_direct_api (u ''order a pizza'')] \<and>
   main_orchestrate failing_env (u ''order a pizza'') =
     ([Call_generate_utterances (u ''order a pizza''),
       Print ADK_method_failed_trying_direct_API,
       Call_generate_utterances_direct_api (u ''order a pizza''),
       Print Failed_to_generate_utterances], None) \<and>
   filter is_save_to_csv_call (fst (main_orchestrate failing_env (u ''order a pizza''))) = []"
proof -
  have a: "generate_utterances (adk failing_env) (u ''order a pizza'') = Inr None"
    by (simp add: failing_env_def generate_utterances_def except_Exception_return_None_def)
  have b: "not_list (None :: str list option)" by (simp add: not_list_def)
  have c: "generate_utterances_direct_api (genai failing_env) (u ''order a pizza'') = Inr None"
    by (simp add: failing_env_def generate_utterances_direct_api_def
        except_Exception_return_None_def not_str_def)
  from fallback_invoked_once [OF a b] a b c show ?thesis by blast
qed

subsection \<open>Claims about \<^verbatim>\<open>save_to_csv\<close>\<close>

lemma div10_mod10_eq: "(a::nat) div 10 = b div 10 \<Longrightarrow> a mod 10 = b mod 10 \<Longrightarrow> a = b"
  by (metis div_mult_mod_eq)

lemma div_div_10: "(a::nat) div 100 div 10 = a div 1000" "a div 10 div 10 = a div 100"
  using div_mult2_eq [of a 100 10] div_mult2_eq [of a 10 10] by simp_all

lemma digits2_inj:
  assumes "a < 100" "b < 100"
  shows "digits2 a = digits2 b \<longleftrightarrow> a = b"
proof
  assume "digits2 a = digits2 b"
  then have h: "a div 10 mod 10 = b div 10 mod 10" "a mod 10 = b mod 10"
    by (simp_all add: digits2_def)
  from assms have "a div 10 < 10" "b div 10 < 10" by simp_all
  with h(1) have "a div 10 = b div 10" by simp
  then show "a = b" using h(2) by (rule div10_mod10_eq)
qed simp

lemma digits4_inj:
  assumes "a < 10000" "b < 10000"
  shows "digits4 a = digits4 b \<longleftrightarrow> a = b"
proof
  assume "digits4 a = digits4 b"
  then have h: "a div 1000 mod 10 = b div 1000 mod 10" "a div 100 mod 10 = b div 100 mod 10"
    "a div 10 mod 10 = b div 10 mod 10" "a mod 10 = b mod 10"
    by (simp_all add: digits4_def)
  from assms have "a div 1000 < 10" "b div 1000 < 10" by simp_all
  with h(1) have "a div 1000 = b div 1000" by simp
  then have "a div 100 div 10 = b div 100 div 10" by (simp only: div_div_10)
  then have "a div 100 = b div 100" using h(2) by (rule div10_mod10_eq)
  then have "a div 10 div 10 = b div 10 div 10" by (simp only: div_div_10)
  then have "a div 10 = b div 10" using h(3) by (rule div10_mod10_eq)
  then show "a = b" using h(4) by (rule div10_mod10_eq)
qed simp


lemma length_digits [simp]: "length (digits2 n) = 2" "length (digits4 n) = 4"
  by (simp_all add: digits2_def digits4_def)

lemma length_strftime [simp]: "length (strftime_Ymd d) = 8" "length (strftime_Ymd_HMS d) = 15"
  by (simp_all add: strftime_Ymd_def strftime_Ymd_HMS_def u_def)

lemma strftime_Ymd_inj:
  assumes "valid_datetime a" "valid_datetime b"
  shows "strftime_Ymd a = strftime_Ymd b \<longleftrightarrow> same_day a b"
proof -
  from assms have y: "year a < 10000" "year b < 10000"
    and m: "month a < 100" "month b < 100" and d: "day a < 100" "day b < 100"
    by (simp_all add: valid_datetime_def)
  show ?thesis
    by (simp add: strftime_Ymd_def same_day_def digits4_inj [OF y] digits2_inj [OF m]
        digits2_inj [OF d])
qed

lemma strftime_Ymd_HMS_inj:
  assumes "valid_datetime a" "valid_datetime b"
  shows "strftime_Ymd_HMS a = strftime_Ymd_HMS b \<longleftrightarrow> same_second a b"
proof -
  from assms have h: "hour a < 100" "hour b < 100"
    and m: "minute a < 100" "minute b < 100" and s: "second a < 100" "second b < 100"
    by (simp_all add: valid_datetime_def)
  have "same_second a b \<longleftrightarrow>
      same_day a b \<and> hour a = hour b \<and> minute a = minute b \<and> second a = second b"
    by (auto simp: same_second_def same_day_def)
  then show ?thesis
    by (simp add: strftime_Ymd_HMS_def strftime_Ymd_inj [OF assms] digits2_inj [OF h]
        digits2_inj [OF m] digits2_inj [OF s])
qed

lemma length_u [simp]: "length (u s) = length s"
  by (simp add: u_def)

lemma filepath_of_inj:
  assumes "valid_datetime a1" "valid_datetime a2" "valid_datetime b1" "valid_datetime b2"
  shows "filepath_of a1 a2 = filepath_of b1 b2 \<longleftrightarrow> same_second a1 b1 \<and> same_day a2 b2"
  using strftime_Ymd_HMS_inj [OF assms(1,3)] strftime_Ymd_inj [OF assms(2,4)]
  by (auto simp add: filepath_of_def)

lemma files_makedirs [simp]: "files (makedirs fs p) = files fs"
  by (simp add: makedirs_def)

lemma save_to_csv_eq:
  "save_to_csv fs now1 now2 utterances intention =
     (let fs1 = (if \<not> path_exists fs (u ''utterance_outputs_'' @ strftime_Ymd now2)
                 then makedirs fs (u ''utterance_outputs_'' @ strftime_Ymd now2) else fs)
      in if u ''utterance_outputs_'' @ strftime_Ymd now2 \<in> directories fs1 \<and>
            filepath_of now1 now2 \<notin> directories fs1
         then (case write_error fs1 (filepath_of now1 now2) of
                 None \<Rightarrow>
                   (fs1\<lparr>files := (files fs1)(filepath_of now1 now2 \<mapsto>
                      ([u ''id'', u ''utterance'', u ''original_intention''],
                       csv_rows utterances intention))\<rparr>,
                    Some (filepath_of now1 now2))
               | Some partial \<Rightarrow>
                   (fs1\<lparr>files := (files fs1)(filepath_of now1 now2 \<mapsto> partial)\<rparr>, None))
         else (fs1, None))"
  by (simp only: save_to_csv_def filepath_of_def csv_rows_def Let_def append_assoc)

lemma save_to_csv_Some:
  assumes "save_to_csv fs now1 now2 utterances intention = (fs', Some p)"
  shows "p = filepath_of now1 now2"
    and "files fs' = (files fs)(p \<mapsto>
           ([u ''id'', u ''utterance'', u ''original_intention''], csv_rows utterances intention))"
proof -
  define fs1 where "fs1 = (if \<not> path_exists fs (u ''utterance_outputs_'' @ strftime_Ymd now2)
                 then makedirs fs (u ''utterance_outputs_'' @ strftime_Ymd now2) else fs)"
  have f: "files fs1 = files fs" by (simp add: fs1_def)
  from assms have r: "fs' = fs1\<lparr>files := (files fs1)(filepath_of now1 now2 \<mapsto>
                   ([u ''id'', u ''utterance'', u ''original_intention''],
                    csv_rows utterances intention))\<rparr> \<and> p = filepath_of now1 now2"
    unfolding save_to_csv_eq fs1_def [symmetric] Let_def
    by (auto split: if_splits option.splits)
  from r show "p = filepath_of now1 now2" by simp
  from r f show "files fs' = (files fs)(p \<mapsto>
           ([u ''id'', u ''utterance'', u ''original_intention''], csv_rows utterances intention))"
    by simp
qed

lemma first_save_eq:
  "first_save =
     (\<lparr>directories = {u ''utterance_outputs_20240102''},
       files = [u ''utterance_outputs_20240102/utterances_20240102_120000.csv'' \<mapsto>
                ([u ''id'', u ''utterance'', u ''original_intention''],
                 [(1, u ''first'', u ''x'')])],
       write_error = (\<lambda>p. None)\<rparr>,
      Some (u ''utterance_outputs_20240102/utterances_20240102_120000.csv''))"
  by (simp add: first_save_def save_to_csv_def empty_filesystem_def noon_def path_exists_def
      makedirs_def strftime_Ymd_def strftime_Ymd_HMS_def digits2_def digits4_def u_def Let_def)

text \<open>
  C8, as stated, fails: two invocations within the same second, at 12:00:00.000000 and
  at 12:00:00.500000, build the same path, and the second one replaces the file the first
  one wrote.
\<close>

theorem distinct_paths_counterexample:
  "snd first_save = Some (u ''utterance_outputs_20240102/utterances_20240102_120000.csv'') \<and>
   files (fst first_save) (u ''utterance_outputs_20240102/utterances_20240102_120000.csv'') =
     Some ([u ''id'', u ''utterance'', u ''original_intention''], [(1, u ''first'', u ''x'')]) \<and>
   snd (save_to_csv (fst first_save) noon_and_a_half noon_and_a_half [u ''second''] (u ''x'')) =
     Some (u ''utterance_outputs_20240102/utterances_20240102_120000.csv'') \<and>
   files (fst (save_to_csv (fst first_save) noon_and_a_half noon_and_a_half [u ''second''] (u ''x'')))
     (u ''utterance_outputs_20240102/utterances_20240102_120000.csv'') =
     Some ([u ''id'', u ''utterance'', u ''original_intention''], [(1, u ''second'', u ''x'')])"
  by (simp add: first_save_eq)
     (simp add: save_to_csv_def noon_and_a_half_def noon_def path_exists_def
      makedirs_def strftime_Ymd_def strftime_Ymd_HMS_def digits2_def digits4_def u_def Let_def)

text \<open>
  C8, amended. Two successful invocations of \<^verbatim>\<open>save_to_csv\<close> build the same path exactly
  when the readings for the file name fall in the same calendar second and the readings
  for the directory on the same day. The later invocation leaves its own rows in its
  file; a file of the earlier invocation under another path is untouched, a file under
  the same path is overwritten.
\<close>

theorem save_paths_by_second:
  assumes "valid_datetime a1" "valid_datetime a2" "valid_datetime b1" "valid_datetime b2"
    and "save_to_csv fs a1 a2 utterances intention = (fs1, Some p)"
    and "save_to_csv fs1 b1 b2 utterances' intention' = (fs2, Some p')"
  shows "(p = p' \<longleftrightarrow> same_second a1 b1 \<and> same_day a2 b2) \<and>
         files fs2 p' =
           Some ([u ''id'', u ''utterance'', u ''original_intention''],
                 csv_rows utterances' intention') \<and>
         (p \<noteq> p' \<longrightarrow> files fs2 p = files fs1 p)"
proof -
  note s1 = save_to_csv_Some [OF assms(5)]
  note s2 = save_to_csv_Some [OF assms(6)]
  from s1(1) s2(1) filepath_of_inj [OF assms(1-4)]
  have "p = p' \<longleftrightarrow> same_second a1 b1 \<and> same_day a2 b2" by simp
  moreover from s2(2) have "files fs2 p' =
           Some ([u ''id'', u ''utterance'', u ''original_intention''],
                 csv_rows utterances' intention')" by simp
  moreover from s2(2) have "files fs2 p = files fs1 p" if "p \<noteq> p'" using that by simp
  ultimately show ?thesis by simp
qed

theorem save_paths_by_second_witness:
  "valid_datetime noon \<and> valid_datetime one_second_later \<and>
   first_save = (fst first_save, Some (filepath_of noon noon)) \<and>
   save_to_csv (fst first_save) one_second_later one_second_later [u ''second''] (u ''x'') =
     (fst (save_to_csv (fst first_save) one_second_later one_second_later [u ''second''] (u ''x'')),
      Some (filepath_of one_second_later one_second_later)) \<and>
   filepath_of noon noon \<noteq> filepath_of one_second_later one_second_later \<and>
   \<not> same_second noon one_second_later \<and>
   files (fst (save_to_csv (fst first_save) one_second_later one_second_later [u ''second''] (u ''x'')))
     (filepath_of noon noon) =
     Some ([u ''id'', u ''utterance'', u ''original_intention''], [(1, u ''first'', u ''x'')])"
proof -
  have v1: "valid_datetime noon" by (simp add: valid_datetime_def noon_def)
  have v2: "valid_datetime one_second_later"
    by (simp add: valid_datetime_def one_second_later_def noon_def)
  have p1: "filepath_of noon noon = u ''utterance_outputs_20240102/utterances_20240102_120000.csv''"
    by (simp add: filepath_of_def noon_def strftime_Ymd_def strftime_Ymd_HMS_def digits2_def
        digits4_def u_def)
  have s1: "save_to_csv empty_filesystem noon noon [u ''first''] (u ''x'') =
      (fst first_save, Some (filepath_of noon noon))"
    unfolding p1 first_save_def [symmetric] by (simp add: first_save_eq)
  have s2: "save_to_csv (fst first_save) one_second_later one_second_later [u ''second''] (u ''x'') =
     (fst (save_to_csv (fst first_save) one_second_later one_second_later [u ''second''] (u ''x'')),
      Some (filepath_of one_second_later one_second_later))"
    by (simp add: first_save_eq)
       (simp add: save_to_csv_def filepath_of_def one_second_later_def noon_def path_exists_def
        makedirs_def strftime_Ymd_def strftime_Ymd_HMS_def digits2_def digits4_def u_def Let_def)
  have ns: "\<not> same_second noon one_second_later"
    by (simp add: same_second_def one_second_later_def noon_def)
  have f1: "files (fst first_save) (filepath_of noon noon) =
      Some ([u ''id'', u ''utterance'', u ''original_intention''], [(1, u ''first'', u ''x'')])"
    unfolding p1 by (simp add: first_save_eq)
  from save_paths_by_second [OF v1 v1 v2 v2 s1 s2] ns f1 v1 v2 s1 s2
  show ?thesis unfolding first_save_def [symmetric] by (auto split: if_splits)
qed

subsection \<open>Claims about the housekeeping tool\<close>

lemma without_Nil [simp]: "without [] cwd = cwd"
  by (simp add: without_def)

lemma without_without: "without names (without names' cwd) = without (names' @ names) cwd"
  by (auto simp: without_def intro: filter_cong)

lemma rmtree_plain: "is_plain_dir cwd folder \<Longrightarrow> rmtree cwd folder = (without [folder] cwd, None)"
  by (auto simp: is_plain_dir_def rmtree_def without_def split: option.splits entry.splits)

lemma rmtree_None:
  "rmtree cwd folder = (cwd', None) \<Longrightarrow> cwd' = without [folder] cwd \<and> is_plain_dir cwd folder"
  by (auto simp: is_plain_dir_def rmtree_def without_def split: option.splits entry.splits)


lemma map_of_without: "name \<notin> set names \<Longrightarrow> map_of (without names cwd) name = map_of cwd name"
  by (induction cwd) (auto simp: without_def)


lemma unprefixed_relabel:
  "startswith folder (u ''utterance_outputs_'') \<Longrightarrow>
   unprefixed (map (\<lambda>(n, e). if n = folder then (n, x) else (n, e)) cwd) = unprefixed cwd"
  by (induction cwd) (auto simp: unprefixed_def split: if_splits)

lemma unprefixed_without:
  "list_all (\<lambda>name. startswith name (u ''utterance_outputs_'')) names \<Longrightarrow>
   unprefixed (without names cwd) = unprefixed cwd"
  by (auto simp: unprefixed_def without_def list_all_iff intro: filter_cong)

lemma rmtree_unprefixed:
  "startswith folder (u ''utterance_outputs_'') \<Longrightarrow>
   unprefixed (fst (rmtree cwd folder)) = unprefixed cwd"
  using unprefixed_without [of "[folder]" cwd]
  by (auto simp: rmtree_def unprefixed_relabel without_def split: option.splits entry.splits)

lemma set_list_output_folders:
  "set (list_output_folders cwd) =
     {item \<in> fst ` set cwd. isdir cwd item \<and> startswith item (u ''utterance_outputs_'')}"
  by (auto simp: list_output_folders_def)

lemma list_output_folders_prefixed:
  "list_all (\<lambda>name. startswith name (u ''utterance_outputs_'')) (list_output_folders cwd)"
  by (simp add: list_all_iff set_list_output_folders)

lemma distinct_list_output_folders:
  "distinct (map fst cwd) \<Longrightarrow> distinct (list_output_folders cwd)"
  by (simp add: list_output_folders_def)

text \<open>The loop when every removal succeeds.\<close>

lemma for_folders_eq:
  assumes "distinct folders"
    and "\<forall>folder\<in>set folders. older_than strptime cutoff folder \<longrightarrow> is_plain_dir cwd folder"
  shows "for_folders strptime cutoff folders (cwd, cleaned, printed) =
     ((without (filter (older_than strptime cutoff) folders) cwd,
       cleaned @ filter (older_than strptime cutoff) folders,
       printed @ concat (map (message_for strptime cutoff) folders)), None)"
  using assms
proof (induction folders arbitrary: cwd cleaned printed)
  case Nil
  then show ?case by simp
next
  case (Cons folder folders)
  from Cons.prems have d: "distinct folders" and nin: "folder \<notin> set folders" by simp_all
  show ?case
  proof (cases "older_than strptime cutoff folder")
    case False
    from Cons.prems(2) have "\<forall>f\<in>set folders. older_than strptime cutoff f \<longrightarrow> is_plain_dir cwd f"
      by simp
    from Cons.IH [OF d this] False show ?thesis
      by (auto simp: date_str_of_def [symmetric] older_than_def message_for_def
          split: option.splits)
  next
    case True
    with Cons.prems(2) have p: "is_plain_dir cwd folder" by simp
    have "\<forall>f\<in>set folders. older_than strptime cutoff f \<longrightarrow>
             is_plain_dir (without [folder] cwd) f"
    proof (intro ballI impI)
      fix f assume f: "f \<in> set folders" and o: "older_than strptime cutoff f"
      with nin have "f \<noteq> folder" by auto
      then have "map_of (without [folder] cwd) f = map_of cwd f"
        by (intro map_of_without) simp
      moreover from Cons.prems(2) f o have "is_plain_dir cwd f" by simp
      ultimately show "is_plain_dir (without [folder] cwd) f" by (simp add: is_plain_dir_def)
    qed
    from Cons.IH [OF d this] True rmtree_plain [OF p] show ?thesis
      by (auto simp: date_str_of_def [symmetric] older_than_def message_for_def
          without_without split: option.splits)
  qed
qed


lemma for_folders_unprefixed:
  assumes "for_folders strptime cutoff folders (cwd, cleaned, printed) = ((cwd', cleaned', printed'), x)"
    and "list_all (\<lambda>name. startswith name (u ''utterance_outputs_'')) folders"
  shows "unprefixed cwd' = unprefixed cwd"
  using assms
proof (induction folders arbitrary: cwd cleaned printed)
  case Nil
  then show ?case by simp
next
  case (Cons folder folders)
  from Cons.prems(2) have pf: "startswith folder (u ''utterance_outputs_'')"
    and pr: "list_all (\<lambda>name. startswith name (u ''utterance_outputs_'')) folders" by simp_all
  show ?case
  proof (cases "older_than strptime cutoff folder")
    case False
    with Cons.prems(1) have
      "for_folders strptime cutoff folders (cwd, cleaned, printed @ message_for strptime cutoff folder) =
         ((cwd', cleaned', printed'), x)"
      by (auto simp: date_str_of_def [symmetric] older_than_def message_for_def
          split: option.splits)
    from Cons.IH [OF this pr] show ?thesis .
  next
    case True
    obtain cwd1 r where r: "rmtree cwd folder = (cwd1, r)" by (cases "rmtree cwd folder")
    from rmtree_unprefixed [OF pf, of cwd] r have m: "unprefixed cwd1 = unprefixed cwd" by simp
    show ?thesis
    proof (cases r)
      case None
      with Cons.prems(1) True r have
        "for_folders strptime cutoff folders
           (cwd1, cleaned @ [folder], printed @ [Cleaned_old_folder folder]) =
         ((cwd', cleaned', printed'), x)"
        by (auto simp: date_str_of_def [symmetric] older_than_def split: option.splits)
      from Cons.IH [OF this pr] m show ?thesis by simp
    next
      case (Some e)
      with Cons.prems(1) True r have "cwd' = cwd1"
        by (auto simp: date_str_of_def [symmetric] older_than_def split: option.splits)
      with m show ?thesis by simp
    qed
  qed
qed

lemma for_folders_returns:
  assumes "for_folders strptime cutoff folders (cwd, cleaned, printed) =
             ((cwd', cleaned', printed'), None)"
  shows "\<exists>new. cleaned' = cleaned @ new \<and> set new \<subseteq> set folders \<and> cwd' = without new cwd"
  using assms
proof (induction folders arbitrary: cwd cleaned printed)
  case Nil
  then show ?case by simp
next
  case (Cons folder folders)
  show ?case
  proof (cases "older_than strptime cutoff folder")
    case False
    with Cons.prems have
      "for_folders strptime cutoff folders (cwd, cleaned, printed @ message_for strptime cutoff folder) =
         ((cwd', cleaned', printed'), None)"
      by (auto simp: date_str_of_def [symmetric] older_than_def message_for_def
          split: option.splits)
    from Cons.IH [OF this] show ?thesis by auto
  next
    case True
    obtain cwd1 r where r: "rmtree cwd folder = (cwd1, r)" by (cases "rmtree cwd folder")
    show ?thesis
    proof (cases r)
      case None
      with r rmtree_None have c1: "cwd1 = without [folder] cwd" by blast
      from None Cons.prems True r have
        "for_folders strptime cutoff folders
           (cwd1, cleaned @ [folder], printed @ [Cleaned_old_folder folder]) =
         ((cwd', cleaned', printed'), None)"
        by (auto simp: date_str_of_def [symmetric] older_than_def split: option.splits)
      from Cons.IH [OF this] obtain new where
        "cleaned' = (cleaned @ [folder]) @ new" "set new \<subseteq> set folders" "cwd' = without new cwd1"
        by blast
      with c1 have "cleaned' = cleaned @ (folder # new) \<and> set (folder # new) \<subseteq> set (folder # folders) \<and>
          cwd' = without (folder # new) cwd"
        by (auto simp: without_without)
      then show ?thesis by blast
    next
      case (Some e)
      with Cons.prems True r show ?thesis
        by (auto simp: date_str_of_def [symmetric] older_than_def split: option.splits)
    qed
  qed
qed

lemma clean_old_folders_cases:
  obtains (overflow) e where "clean_old_folders strptime now days_old cwd = (cwd, [], Inl e)"
  | (loop) cwd' cleaned printed x where
      "- 999999999 \<le> days_old" "days_old \<le> 999999999"
      "0 \<le> now - days_old * 86400000000" "now - days_old * 86400000000 < 315537897600000000"
      "for_folders strptime (now - days_old * 86400000000) (list_output_folders cwd) (cwd, [], []) =
         ((cwd', cleaned, printed), x)"
      "clean_old_folders strptime now days_old cwd =
         (cwd', printed, case x of None \<Rightarrow> Inr cleaned | Some e \<Rightarrow> Inl e)"
proof (cases "- 999999999 \<le> days_old \<and> days_old \<le> 999999999 \<and>
    0 \<le> now - days_old * 86400000000 \<and> now - days_old * 86400000000 < 315537897600000000")
  case False
  then have "\<exists>e. clean_old_folders strptime now days_old cwd = (cwd, [], Inl e)"
    by (auto simp: clean_old_folders_def timedelta_days_def datetime_minus_def)
  with overflow show ?thesis by blast
next
  case True
  obtain cwd' cleaned printed x where
    f: "for_folders strptime (now - days_old * 86400000000) (list_output_folders cwd) (cwd, [], []) =
         ((cwd', cleaned, printed), x)"
    by (metis prod_cases3 surj_pair)
  with True have "clean_old_folders strptime now days_old cwd =
         (cwd', printed, case x of None \<Rightarrow> Inr cleaned | Some e \<Rightarrow> Inl e)"
    by (simp add: clean_old_folders_def timedelta_days_def datetime_minus_def split: option.split)
  with True f loop show ?thesis by blast
qed


lemma clean_old_folders_unprefixed:
  "unprefixed (fst (clean_old_folders strptime now days_old cwd)) = unprefixed cwd"
proof (cases rule: clean_old_folders_cases [of strptime now days_old cwd])
  case (overflow e)
  then show ?thesis by simp
next
  case (loop cwd' cleaned printed x)
  from for_folders_unprefixed [OF loop(5) list_output_folders_prefixed] loop(6)
  show ?thesis by simp
qed

lemma clean_old_folders_returns:
  assumes "clean_old_folders strptime now days_old cwd = (cwd', printed, Inr cleaned)"
  shows "cwd' = without cleaned cwd"
    and "list_all (\<lambda>name. startswith name (u ''utterance_outputs_'') \<and> isdir cwd name) cleaned"
proof -
  have "cwd' = without cleaned cwd \<and> set cleaned \<subseteq> set (list_output_folders cwd)"
  proof (cases rule: clean_old_folders_cases [of strptime now days_old cwd])
    case (overflow e)
    with assms show ?thesis by simp
  next
    case (loop cwd1 cleaned1 printed1 x)
    with assms have x: "x = None" and e: "cwd1 = cwd'" "cleaned1 = cleaned"
      by (auto split: option.splits)
    from for_folders_returns [OF loop(5) [unfolded x]] e show ?thesis by auto
  qed
  then show "cwd' = without cleaned cwd"
    and "list_all (\<lambda>name. startswith name (u ''utterance_outputs_'') \<and> isdir cwd name) cleaned"
    by (auto simp: list_all_iff set_list_output_folders)
qed

lemma clean_old_folders_eq:
  assumes "- 999999999 \<le> days_old" "days_old \<le> 999999999"
    and "0 \<le> now - days_old * 86400000000"
    and "now - days_old * 86400000000 < 315537897600000000"
    and "distinct (map fst cwd)"
    and "\<forall>folder\<in>set (list_output_folders cwd).
           older_than strptime (now - days_old * 86400000000) folder \<longrightarrow> is_plain_dir cwd folder"
  shows "clean_old_folders strptime now days_old cwd =
     (without (filter (older_than strptime (now - days_old * 86400000000))
                 (list_output_folders cwd)) cwd,
      concat (map (message_for strptime (now - days_old * 86400000000)) (list_output_folders cwd)),
      Inr (filter (older_than strptime (now - days_old * 86400000000)) (list_output_folders cwd)))"
  using assms(1-4)
    for_folders_eq [OF distinct_list_output_folders [OF assms(5)] assms(6), of "[]" "[]"]
  by (simp add: clean_old_folders_def timedelta_days_def datetime_minus_def)


lemma example_folders:
  "list_output_folders example_cwd =
     [u ''utterance_outputs_20200101'', u ''utterance_outputs_20240108'',
      u ''utterance_outputs_20240110'', u ''utterance_outputs_backup'']"
  by (simp add: list_output_folders_def example_cwd_def isdir_def startswith_def u_def)

lemma example_date_strs:
  "date_str_of (u ''utterance_outputs_20200101'') = u ''20200101''"
  "date_str_of (u ''utterance_outputs_20240108'') = u ''20240108''"
  "date_str_of (u ''utterance_outputs_20240110'') = u ''20240110''"
  "date_str_of (u ''utterance_outputs_backup'') = u ''backup''"
  by (simp_all add: date_str_of_def startswith_def u_def)

lemma example_old:
  "older_than example_strptime (example_now - 7 * 86400000000) (u ''utterance_outputs_20200101'')"
  "older_than example_strptime (example_now - 7 * 86400000000) (u ''utterance_outputs_20240108'')"
  "\<not> older_than example_strptime (example_now - 7 * 86400000000) (u ''utterance_outputs_20240110'')"
  "\<not> older_than example_strptime (example_now - 7 * 86400000000) (u ''utterance_outputs_backup'')"
  by (simp_all add: older_than_def example_date_strs example_now_def)
     (simp_all add: example_strptime_def u_def)



lemma example_plain:
  "is_plain_dir example_cwd (u ''utterance_outputs_20200101'')"
  "is_plain_dir example_cwd (u ''utterance_outputs_20240108'')"
  by (simp_all add: is_plain_dir_def example_cwd_def u_def)

lemma example_distinct: "distinct (map fst example_cwd)"
  by (simp add: example_cwd_def u_def)

lemma example_clean:
  "clean_old_folders example_strptime example_now 7 example_cwd =
     ([(u ''utterance_outputs_20240110'', Dir [u ''utterances_20240110_090000.csv'']),
       (u ''notes.txt'', File),
       (u ''utterance_outputs_backup'', Dir []),
       (u ''old_outputs_20200101'', Dir [])],
      [Cleaned_old_folder (u ''utterance_outputs_20200101''),
       Cleaned_old_folder (u ''utterance_outputs_20240108''),
       Skipped_folder_with_invalid_date_format (u ''utterance_outputs_backup'')],
      Inr [u ''utterance_outputs_20200101'', u ''utterance_outputs_20240108''])"
proof -
  have o: "filter (older_than example_strptime (example_now - 7 * 86400000000))
             (list_output_folders example_cwd) =
           [u ''utterance_outputs_20200101'', u ''utterance_outputs_20240108'']"
    unfolding example_folders using example_old by simp
  have m: "concat (map (message_for example_strptime (example_now - 7 * 86400000000))
             (list_output_folders example_cwd)) =
          [Cleaned_old_folder (u ''utterance_outputs_20200101''),
           Cleaned_old_folder (u ''utterance_outputs_20240108''),
           Skipped_folder_with_invalid_date_format (u ''utterance_outputs_backup'')]"
    unfolding example_folders
    by (simp add: message_for_def example_date_strs example_now_def)
       (simp add: example_strptime_def u_def)
  have w: "without [u ''utterance_outputs_20200101'', u ''utterance_outputs_20240108''] example_cwd =
          [(u ''utterance_outputs_20240110'', Dir [u ''utterances_20240110_090000.csv'']),
           (u ''notes.txt'', File),
           (u ''utterance_outputs_backup'', Dir []),
           (u ''old_outputs_20200101'', Dir [])]"
    by (simp add: without_def example_cwd_def u_def)
  have p: "\<forall>folder\<in>set (list_output_folders example_cwd).
             older_than example_strptime (example_now - 7 * 86400000000) folder \<longrightarrow>
             is_plain_dir example_cwd folder"
    unfolding example_folders using example_old example_plain by simp
  have "clean_old_folders example_strptime example_now 7 example_cwd =
     (without (filter (older_than example_strptime (example_now - 7 * 86400000000))
                 (list_output_folders example_cwd)) example_cwd,
      concat (map (message_for example_strptime (example_now - 7 * 86400000000))
                (list_output_folders example_cwd)),
      Inr (filter (older_than example_strptime (example_now - 7 * 86400000000))
             (list_output_folders example_cwd)))"
    by (rule clean_old_folders_eq) (simp_all add: example_now_def example_distinct p)
  then show ?thesis unfolding o m w .
qed

lemma menu_loop_frame: "unprefixed (fst (menu_loop strptime inputs cwd)) = unprefixed cwd"
proof (induction inputs arbitrary: cwd)
  case Nil
  show ?case by simp
next
  case (Cons a inputs)
  obtain typed now where a: "a = (typed, now)" by (cases a)
  obtain cwd' printed r where c: "clean_old_folders strptime now 7 cwd = (cwd', printed, r)"
    by (metis prod_cases3)
  from clean_old_folders_unprefixed [of strptime now 7 cwd] c
  have f: "unprefixed cwd' = unprefixed cwd" by simp
  show ?case
  proof (cases r)
    case (Inl e)
    with a c f show ?thesis by (simp add: Let_def Cons.IH)
  next
    case (Inr cleaned)
    with a c f show ?thesis by (simp add: Let_def Cons.IH)
  qed
qed



text \<open>
  C10. Whatever is typed at the menu, and however the run ends, the entries of the
  working directory whose name lacks the prefix \<^verbatim>\<open>utterance_outputs_\<close> are the same after
  the run as before. So they are after a call of \<^verbatim>\<open>clean_old_folders\<close>, whether it
  returns or raises; and when it returns, it has removed only directories whose name
  starts with the prefix and changed nothing else.
\<close>

theorem housekeeping_touches_only_prefixed:
  "unprefixed (fst (menu_loop strptime inputs cwd)) = unprefixed cwd \<and>
   (case clean_old_folders strptime now days_old cwd of
      (cwd', printed, r) \<Rightarrow>
        unprefixed cwd' = unprefixed cwd \<and>
        (case r of
           Inl e \<Rightarrow> True
         | Inr cleaned \<Rightarrow>
             cwd' = without cleaned cwd \<and>
             list_all (\<lambda>name. startswith name (u ''utterance_outputs_'') \<and> isdir cwd name)
               cleaned))"
proof -
  obtain cwd' printed r where c: "clean_old_folders strptime now days_old cwd = (cwd', printed, r)"
    by (metis prod_cases3)
  from clean_old_folders_unprefixed [of strptime now days_old cwd] c
  have f: "unprefixed cwd' = unprefixed cwd" by simp
  have "cwd' = without cleaned cwd \<and>
        list_all (\<lambda>name. startswith name (u ''utterance_outputs_'') \<and> isdir cwd name) cleaned"
    if "r = Inr cleaned" for cleaned
    using clean_old_folders_returns [OF c [unfolded that]] by simp
  with c f show ?thesis
    by (simp add: menu_loop_frame split: sum.split)
qed

theorem housekeeping_touches_only_prefixed_witness:
  "menu_loop example_strptime [(u ''3'', example_now), (u '' 4 '', example_now)] example_cwd =
     ([(u ''utterance_outputs_20240110'', Dir [u ''utterances_20240110_090000.csv'']),
       (u ''notes.txt'', File),
       (u ''utterance_outputs_backup'', Dir []),
       (u ''old_outputs_20200101'', Dir [])], None) \<and>
   unprefixed (fst (menu_loop example_strptime
      [(u ''3'', example_now), (u '' 4 '', example_now)] example_cwd)) =
     [(u ''notes.txt'', File), (u ''old_outputs_20200101'', Dir [])] \<and>
   unprefixed example_cwd = [(u ''notes.txt'', File), (u ''old_outputs_20200101'', Dir [])]"
proof -
  have m: "menu_loop example_strptime [(u ''3'', example_now), (u '' 4 '', example_now)] example_cwd =
     ([(u ''utterance_outputs_20240110'', Dir [u ''utterances_20240110_090000.csv'']),
       (u ''notes.txt'', File),
       (u ''utterance_outputs_backup'', Dir []),
       (u ''old_outputs_20200101'', Dir [])], None)"
    by (simp add: example_clean Let_def) (simp add: strip_def isspace_def u_def)
  have e: "unprefixed example_cwd = [(u ''notes.txt'', File), (u ''old_outputs_20200101'', Dir [])]"
    by (simp add: unprefixed_def example_cwd_def startswith_def u_def)
  from housekeeping_touches_only_prefixed
         [of example_strptime "[(u ''3'', example_now), (u '' 4 '', example_now)]" example_cwd
             example_now 7]
  have "unprefixed (fst (menu_loop example_strptime
      [(u ''3'', example_now), (u '' 4 '', example_now)] example_cwd)) = unprefixed example_cwd"
    by simp
  with m e show ?thesis by simp
qed

end
